theory Spec2Isabelle
  imports Complex_Main
begin

section \<open>Arrays and Python slicing\<close>

text \<open>
  The separation pipeline of \<^verbatim>\<open>audio_separator_nu.py\<close> works on numpy arrays of shape
  \<open>(2, N)\<close> (channels by samples). Such an array is modelled as the list of its \<open>N\<close>
  columns, so that \<^verbatim>\<open>mix.shape[1]\<close> is the length of the list and a slice
  \<^verbatim>\<open>mix[:, a:b]\<close> along the last axis is a slice of the list. The column type is left
  open where the code only moves columns around.

  Samples are real numbers: the arithmetic of the model is exact.
\<close>

definition norm_idx :: "nat \<Rightarrow> int \<Rightarrow> nat" where
  \<comment> \<open>Python's normalisation of a slice bound \<open>i\<close> for a sequence of length \<open>n\<close>.\<close>
  "norm_idx n i = (if i < 0 then nat (max 0 (int n + i)) else min (nat i) n)"

definition slice_from :: "'a list \<Rightarrow> int \<Rightarrow> 'a list" where
  \<comment> \<open>\<^verbatim>\<open>xs[..., i:]\<close>\<close>
  "slice_from xs i = drop (norm_idx (length xs) i) xs"

definition slice_to :: "'a list \<Rightarrow> int \<Rightarrow> 'a list" where
  \<comment> \<open>\<^verbatim>\<open>xs[..., :i]\<close>\<close>
  "slice_to xs i = take (norm_idx (length xs) i) xs"

definition slice_between :: "'a list \<Rightarrow> int \<Rightarrow> int \<Rightarrow> 'a list" where
  \<comment> \<open>\<^verbatim>\<open>xs[..., i:j]\<close>\<close>
  "slice_between xs i j =
     take (norm_idx (length xs) j - norm_idx (length xs) i) (drop (norm_idx (length xs) i) xs)"

section \<open>Circular shifts\<close>

text \<open>
  The three ensemblers \<^verbatim>\<open>demix_wrapper\<close>, \<^verbatim>\<open>demix_full_mdx23c\<close> and
  \<^verbatim>\<open>demix_full_vitlarge\<close> rotate the input with
  \<^verbatim>\<open>np.concatenate((mix[:, -shift:], mix[:, :-shift]), axis=-1)\<close> and restore the output with
  \<^verbatim>\<open>np.concatenate((sources[..., shift:], sources[..., :shift]), axis=-1)\<close>.
  In Python \<^verbatim>\<open>-shift\<close> is \<open>0\<close> for \<^verbatim>\<open>shift = 0\<close>, which the integer negation below
  reproduces.
\<close>

definition shifted_mix :: "nat \<Rightarrow> 'a list \<Rightarrow> 'a list" where
  "shifted_mix shift mix = slice_from mix (- int shift) @ slice_to mix (- int shift)"

definition restored_sources :: "nat \<Rightarrow> 'a list \<Rightarrow> 'a list" where
  "restored_sources shift sources = slice_from sources (int shift) @ slice_to sources (int shift)"

definition effective_bigshifts :: "int \<Rightarrow> nat" where
  \<comment> \<open>\<^verbatim>\<open>if bigshifts <= 0: bigshifts = 1\<close>\<close>
  "effective_bigshifts bigshifts = (if bigshifts \<le> 0 then 1 else nat bigshifts)"

definition shift_list :: "nat \<Rightarrow> int \<Rightarrow> nat list" where
  \<comment> \<open>\<^verbatim>\<open>shift_in_samples = mix.shape[1] // bigshifts\<close>;
      \<^verbatim>\<open>shifts = [x * shift_in_samples for x in range(bigshifts)]\<close>\<close>
  "shift_list n bigshifts =
     (let b = effective_bigshifts bigshifts;
          shift_in_samples = n div b
      in map (\<lambda>x. x * shift_in_samples) [0..<b])"

section \<open>Element-wise array arithmetic\<close>

text \<open>
  Where the code combines arrays of one shape element by element, an array is the list
  of its elements (in any fixed order); the transposes \<^verbatim>\<open>.T\<close> of the source only
  reorder that list and are not written. numpy raises when the shapes differ; the
  theorems below are stated for arrays of one length.
\<close>

type_synonym ndarray = "real list"

definition arr_add :: "ndarray \<Rightarrow> ndarray \<Rightarrow> ndarray" where
  "arr_add a b = map2 (+) a b"

definition arr_sub :: "ndarray \<Rightarrow> ndarray \<Rightarrow> ndarray" where
  "arr_sub a b = map2 (-) a b"

definition arr_scale :: "real \<Rightarrow> ndarray \<Rightarrow> ndarray" where
  "arr_scale c a = map ((*) c) a"

definition np_clip :: "ndarray \<Rightarrow> real \<Rightarrow> real \<Rightarrow> ndarray" where
  \<comment> \<open>\<^verbatim>\<open>np.clip(a, lo, hi)\<close>\<close>
  "np_clip a lo hi = map (\<lambda>x. min hi (max lo x)) a"

text \<open>
  Division of floating-point arrays does not raise: a zero divisor gives NaN or an
  infinity. A sample that is not a finite number is \<open>None\<close>.
\<close>

definition fdiv :: "real \<Rightarrow> real \<Rightarrow> real option" where
  "fdiv x y = (if y = 0 then None else Some (x / y))"

definition arr_div :: "ndarray \<Rightarrow> real \<Rightarrow> real option list" where
  \<comment> \<open>\<^verbatim>\<open>a / c\<close> for a scalar \<open>c\<close>\<close>
  "arr_div a c = map (\<lambda>x. fdiv x c) a"

section \<open>Weighted combination of the backends\<close>

text \<open>
  \<^verbatim>\<open>separate_music_file\<close>, vocals without the ONNX backend:
  \<^verbatim>\<open>weights = np.array([options["weight_InstVoc"], options["weight_VitLarge"]])\<close>,
  \<^verbatim>\<open>(weights[0] * vocals3.T + weights[1] * vocals4.T) / weights.sum()\<close>
  (the argument of the low-pass filter).
\<close>

definition vocals_blend2 :: "real \<Rightarrow> real \<Rightarrow> ndarray \<Rightarrow> ndarray \<Rightarrow> real option list" where
  "vocals_blend2 weight_InstVoc weight_VitLarge vocals3 vocals4 =
     (let weights = [weight_InstVoc, weight_VitLarge]
      in arr_div (arr_add (arr_scale (weights ! 0) vocals3) (arr_scale (weights ! 1) vocals4))
           (sum_list weights))"

text \<open>
  With the ONNX backend:
  \<^verbatim>\<open>(weights[0] * vocals_mdxb1.T + weights[1] * vocals3.T + weights[2] * vocals4.T) / weights.sum()\<close>.
\<close>

definition vocals_blend3 ::
  "real \<Rightarrow> real \<Rightarrow> real \<Rightarrow> ndarray \<Rightarrow> ndarray \<Rightarrow> ndarray \<Rightarrow> real option list" where
  "vocals_blend3 weight_VOCFT weight_InstVoc weight_VitLarge vocals_mdxb1 vocals3 vocals4 =
     (let weights = [weight_VOCFT, weight_InstVoc, weight_VitLarge]
      in arr_div (arr_add (arr_add (arr_scale (weights ! 0) vocals_mdxb1)
                                   (arr_scale (weights ! 1) vocals3))
                          (arr_scale (weights ! 2) vocals4))
           (sum_list weights))"

text \<open>
  The Demucs ensemble: each of the four models' estimate of a stem is multiplied by that
  model's weight (\<^verbatim>\<open>out[0] = self.weights_drums[i] * out[0]\<close>, ...), the four are summed
  (\<^verbatim>\<open>np.array(all_outs).sum(axis=0)\<close>) and the sum is divided by the sum of the weights
  (\<^verbatim>\<open>out[0] / self.weights_drums.sum()\<close>). \<open>stem_ensemble\<close> is that computation for one
  stem; \<open>outs\<close> are the four models' estimates of it, in the order of the models.
\<close>

definition weights_vocals :: "real list" where "weights_vocals = [10, 1, 8, 9]"
definition weights_bass :: "real list" where "weights_bass = [19, 4, 5, 8]"
definition weights_drums :: "real list" where "weights_drums = [18, 2, 4, 9]"
definition weights_other :: "real list" where "weights_other = [14, 2, 5, 10]"

fun np_sum_axis0 :: "ndarray list \<Rightarrow> ndarray" where
  "np_sum_axis0 [] = []"
| "np_sum_axis0 (a # as) = fold (\<lambda>b acc. arr_add acc b) as a"

definition stem_ensemble :: "real list \<Rightarrow> ndarray list \<Rightarrow> real option list" where
  "stem_ensemble weights outs =
     arr_div (np_sum_axis0 (map (\<lambda>i. arr_scale (weights ! i) (outs ! i)) [0..<4]))
       (sum_list weights)"

section \<open>Residual refinement and final correction of the stems\<close>

text \<open>
  The end of \<^verbatim>\<open>separate_music_file\<close> when \<^verbatim>\<open>vocals_only\<close> is false. \<open>out0\<close>, \<open>out1\<close>
  and \<open>out2\<close> are the normalised ensemble estimates \<^verbatim>\<open>out[0].T\<close> (drums),
  \<^verbatim>\<open>out[1].T\<close> (bass) and \<^verbatim>\<open>out[2].T\<close> (other). The dictionary
  \<^verbatim>\<open>separated_music_arrays\<close> is a map from stem names to arrays; the parallel dictionary
  of sample rates is left out.
\<close>

type_synonym stems = "string \<rightharpoonup> ndarray"

definition residual_refinement ::
  "ndarray \<Rightarrow> ndarray \<Rightarrow> ndarray \<Rightarrow> ndarray \<Rightarrow> ndarray \<Rightarrow> stems \<Rightarrow> stems" where
  "residual_refinement mixed_sound_array vocals out0 out1 out2 separated_music_arrays =
     (let res = arr_sub (arr_sub (arr_sub mixed_sound_array vocals) out0) out1;
          res = np_clip res (-1) 1;
          sma = separated_music_arrays(''other'' \<mapsto>
                  map (\<lambda>x. x / 3) (arr_add (arr_scale 2 res) out2));
          res = arr_sub (arr_sub (arr_sub mixed_sound_array vocals) out1) out2;
          res = np_clip res (-1) 1;
          sma = sma(''drums'' \<mapsto> map (\<lambda>x. x / 3) (arr_add res (arr_scale 2 out0)));
          res = arr_sub (arr_sub (arr_sub mixed_sound_array vocals) out0) out2;
          res = np_clip res (-1) 1;
          sma = sma(''bass'' \<mapsto> map (\<lambda>x. x / 3) (arr_add res (arr_scale 2 out1)))
      in sma)"

text \<open>
  The final pass first reads the three stems into the local variables \<^verbatim>\<open>bass\<close>,
  \<^verbatim>\<open>drums\<close> and \<^verbatim>\<open>other\<close>, then assigns the three dictionary entries. A missing key
  would raise \<^verbatim>\<open>KeyError\<close>: the result is \<open>None\<close> then.
\<close>

definition final_correction :: "ndarray \<Rightarrow> ndarray \<Rightarrow> stems \<Rightarrow> stems option" where
  "final_correction mixed_sound_array vocals separated_music_arrays =
     (case separated_music_arrays ''bass'' of None \<Rightarrow> None | Some bass \<Rightarrow>
      case separated_music_arrays ''drums'' of None \<Rightarrow> None | Some drums \<Rightarrow>
      case separated_music_arrays ''other'' of None \<Rightarrow> None | Some other \<Rightarrow>
        (let sma = separated_music_arrays(''other'' \<mapsto>
                     arr_sub (arr_sub (arr_sub mixed_sound_array vocals) bass) drums);
             sma = sma(''drums'' \<mapsto>
                     arr_sub (arr_sub (arr_sub mixed_sound_array vocals) bass) other);
             sma = sma(''bass'' \<mapsto>
                     arr_sub (arr_sub (arr_sub mixed_sound_array vocals) drums) other)
         in Some sma))"

definition separate_stems ::
  "ndarray \<Rightarrow> ndarray \<Rightarrow> ndarray \<Rightarrow> ndarray \<Rightarrow> ndarray \<Rightarrow> stems option" where
  \<comment> \<open>from \<^verbatim>\<open>instrum = mixed_sound_array - vocals\<close> to the \<^verbatim>\<open>return\<close>, the models' estimates given\<close>
  "separate_stems mixed_sound_array vocals out0 out1 out2 =
     (let instrum = arr_sub mixed_sound_array vocals;
          sma = residual_refinement mixed_sound_array vocals out0 out1 out2 Map.empty
      in case final_correction mixed_sound_array vocals sma of
           None \<Rightarrow> None
         | Some sma \<Rightarrow> Some (sma(''vocals'' \<mapsto> vocals, ''instrum'' \<mapsto> instrum)))"

text \<open>
  The final pass as the specification words it: the three stems recomputed one after the
  other, each from the values the dictionary holds at that moment.
\<close>

definition final_correction_sequential :: "ndarray \<Rightarrow> ndarray \<Rightarrow> stems \<Rightarrow> stems option" where
  "final_correction_sequential mix vocals s =
     (case (s ''bass'', s ''drums'') of
        (Some bass, Some drums) \<Rightarrow>
          (let other = arr_sub (arr_sub (arr_sub mix vocals) bass) drums;
               drums = arr_sub (arr_sub (arr_sub mix vocals) bass) other;
               bass = arr_sub (arr_sub (arr_sub mix vocals) drums) other
           in Some (s(''other'' \<mapsto> other, ''drums'' \<mapsto> drums, ''bass'' \<mapsto> bass)))
      | _ \<Rightarrow> None)"

definition stem_total :: "stems \<Rightarrow> ndarray option" where
  \<comment> \<open>\<^verbatim>\<open>vocals + bass + drums + other\<close> of a result\<close>
  "stem_total s =
     (case (s ''vocals'', s ''bass'', s ''drums'', s ''other'') of
        (Some v, Some b, Some d, Some ot) \<Rightarrow> Some (arr_add (arr_add (arr_add v b) d) ot)
      | _ \<Rightarrow> None)"

definition unit_stems :: stems where
  \<comment> \<open>a one-sample dictionary with silent stems, used as a test input below\<close>
  "unit_stems = [''bass'' \<mapsto> [0], ''drums'' \<mapsto> [0], ''other'' \<mapsto> [0]]"

section \<open>The windowed chunk processor\<close>

text \<open>
  \<^verbatim>\<open>demix\<close> works on a stereo waveform: an array of shape \<open>(2, N)\<close>, here the list of
  its \<open>N\<close> columns, each a pair (left, right). The accumulators \<^verbatim>\<open>result\<close> and
  \<^verbatim>\<open>divider\<close> of shape \<open>(1, 2, L)\<close> are lists of \<open>L\<close> such pairs.

  The class \<^verbatim>\<open>Conv_TDF_net_trim_model\<close> is a record of the attributes \<^verbatim>\<open>demix\<close> reads.
  Its methods \<^verbatim>\<open>stft\<close> and \<^verbatim>\<open>istft\<close> (torch) and the ONNX session's \<^verbatim>\<open>run\<close> are
  functions given from outside. A spectrum is a four-dimensional array
  (batch, channel, frequency bin, time frame).
\<close>

datatype py_error = ValueError | ZeroDivisionError | OverflowError

type_synonym frame = "real \<times> real"
type_synonym waveform = "frame list"
type_synonym spectrum = "real list list list list"
type_synonym oframe = "real option \<times> real option"

record conv_tdf_net_trim_model =
  n_fft :: nat
  hop :: nat
  stft :: "waveform \<Rightarrow> spectrum"
  istft :: "spectrum \<Rightarrow> waveform"

definition dim_t :: nat where
  "dim_t = 256"

definition chunk_size :: "'a conv_tdf_net_trim_model_scheme \<Rightarrow> nat" where
  \<comment> \<open>\<^verbatim>\<open>self.chunk_size = hop * (self.dim_t - 1)\<close>\<close>
  "chunk_size m = hop m * (dim_t - 1)"

definition get_models ::
  "int \<Rightarrow> (waveform \<Rightarrow> spectrum) \<Rightarrow> (spectrum \<Rightarrow> waveform) \<Rightarrow> conv_tdf_net_trim_model list" where
  \<comment> \<open>\<^verbatim>\<open>hop\<close> has its default \<open>1024\<close>\<close>
  "get_models vocals_model_type stft_fn istft_fn =
     (if vocals_model_type = 2
      then [\<lparr>n_fft = 7680, hop = 1024, stft = stft_fn, istft = istft_fn\<rparr>]
      else [\<lparr>n_fft = 6144, hop = 1024, stft = stft_fn, istft = istft_fn\<rparr>])"

definition frame_add :: "frame \<Rightarrow> frame \<Rightarrow> frame" where
  "frame_add a b = (fst a + fst b, snd a + snd b)"

definition frame_mul :: "frame \<Rightarrow> frame \<Rightarrow> frame" where
  "frame_mul a b = (fst a * fst b, snd a * snd b)"

definition frame_div :: "frame \<Rightarrow> frame \<Rightarrow> oframe" where
  "frame_div a b = (fdiv (fst a) (fst b), fdiv (snd a) (snd b))"

text \<open>
  An in-place operation \<^verbatim>\<open>target op= operand\<close> of numpy on two arrays that differ in the
  last axis at most: the operand must have the length of the target or length \<open>1\<close> (it
  is then broadcast); any other length raises \<^verbatim>\<open>ValueError\<close>.
\<close>

definition inplace ::
  "(frame \<Rightarrow> frame \<Rightarrow> frame) \<Rightarrow> waveform \<Rightarrow> waveform \<Rightarrow> py_error + waveform" where
  "inplace f target operand =
     (if length operand = length target then Inr (map2 f target operand)
      else if length operand = 1 then Inr (map (\<lambda>t. f t (operand ! 0)) target)
      else Inl ValueError)"

definition add_slice :: "nat \<Rightarrow> nat \<Rightarrow> waveform \<Rightarrow> waveform \<Rightarrow> py_error + waveform" where
  \<comment> \<open>\<^verbatim>\<open>acc[..., start:stop] += vals\<close>\<close>
  "add_slice start stop vals acc =
     (case inplace frame_add (slice_between acc (int start) (int stop)) vals of
        Inl e \<Rightarrow> Inl e
      | Inr updated \<Rightarrow> Inr (take start acc @ updated @ drop stop acc))"

definition hanning :: "nat \<Rightarrow> real list" where
  \<comment> \<open>\<^verbatim>\<open>np.hanning(M)\<close>: empty for \<open>M < 1\<close>, \<open>[1]\<close> for \<open>M = 1\<close>, else
      \<^verbatim>\<open>0.5 + 0.5*cos(pi*n/(M-1))\<close> for \<^verbatim>\<open>n = arange(1-M, M, 2)\<close>\<close>
  "hanning M =
     (if M = 1 then [1]
      else map (\<lambda>k. 0.5 + 0.5 * cos (pi * (1 - real M + 2 * real k) / (real M - 1))) [0..<M])"

definition py_int :: "real \<Rightarrow> int" where
  \<comment> \<open>\<^verbatim>\<open>int(x)\<close> truncates towards zero\<close>
  "py_int x = (if 0 \<le> x then \<lfloor>x\<rfloor> else \<lceil>x\<rceil>)"

text \<open>
  The stride is computed in double precision, and its rounding decides where the chunks
  start. \<open>float64 x\<close> is the double nearest to \<open>x\<close> (53 significant bits, ties to the
  even significand). Its exponent is not bounded here: a result of magnitude \<open>2^1024\<close>
  or more stands for an infinity, which \<^verbatim>\<open>int\<close> refuses with \<^verbatim>\<open>OverflowError\<close>, as the
  conversion of too large an integer to a float does; subnormal numbers do not occur in
  \<open>(1 - overlap) * chunk_size\<close> for a double \<open>overlap\<close>. The argument \<open>overlap\<close> is the
  value of a double.
\<close>

definition round_half_even :: "real \<Rightarrow> int" where
  "round_half_even y =
     (let f = \<lfloor>y\<rfloor>
      in if y - of_int f < 1 / 2 then f
         else if 1 / 2 < y - of_int f then f + 1
         else if even f then f else f + 1)"

definition float64 :: "real \<Rightarrow> real" where
  "float64 x =
     (if x = 0 then 0
      else let e = \<lfloor>log 2 \<bar>x\<bar>\<rfloor>;
               ulp = 2 powr (of_int (e - 52))
           in of_int (round_half_even (x / ulp)) * ulp)"

definition demix_step :: "real \<Rightarrow> nat \<Rightarrow> py_error + int" where
  \<comment> \<open>\<^verbatim>\<open>step = int((1 - overlap) * chunk_size)\<close>\<close>
  "demix_step overlap chunk_size' =
     (let c = float64 (real chunk_size');
          product = float64 (float64 (1 - overlap) * c)
      in if 2 ^ 1024 \<le> \<bar>c\<bar> \<or> 2 ^ 1024 \<le> \<bar>product\<bar> then Inl OverflowError
         else Inr (py_int product))"

definition py_range_step :: "nat \<Rightarrow> int \<Rightarrow> py_error + nat list" where
  \<comment> \<open>\<^verbatim>\<open>range(0, stop, step)\<close>\<close>
  "py_range_step stop step =
     (if step = 0 then Inl ValueError
      else if step < 0 then Inr []
      else Inr (map (\<lambda>k. k * nat step) [0..<(stop + nat step - 1) div nat step]))"

definition zero_low_bins :: "spectrum \<Rightarrow> spectrum" where
  \<comment> \<open>\<^verbatim>\<open>stft_res[:, :, :3, :] *= 0\<close>\<close>
  "zero_low_bins stft_res =
     map (map (\<lambda>bins. map (map (\<lambda>x. x * 0)) (slice_to bins 3) @ slice_from bins 3)) stft_res"

definition model_output ::
  "conv_tdf_net_trim_model \<Rightarrow> (spectrum \<Rightarrow> spectrum) \<Rightarrow> waveform \<Rightarrow> spectrum" where
  \<comment> \<open>\<^verbatim>\<open>stft_res = models[0].stft(mix_wave)\<close>; \<^verbatim>\<open>stft_res[:, :, :3, :] *= 0\<close>;
      \<^verbatim>\<open>res = _ort.run(None, {'input': stft_res})[0]\<close>\<close>
  "model_output m infer_session mix_wave =
     (let stft_res = stft m mix_wave;
          stft_res = zero_low_bins stft_res
      in infer_session stft_res)"

definition infer_chunk ::
  "conv_tdf_net_trim_model \<Rightarrow> (spectrum \<Rightarrow> spectrum) \<Rightarrow> waveform \<Rightarrow> waveform" where
  \<comment> \<open>\<^verbatim>\<open>tar_waves = models[0].istft(ten)\<close>, \<^verbatim>\<open>ten\<close> being the tensor of \<^verbatim>\<open>res\<close>\<close>
  "infer_chunk m infer_session mix_wave = istft m (model_output m infer_session mix_wave)"

text \<open>
  One iteration of the chunk loop, for the chunk that starts at \<open>i\<close>. \<^verbatim>\<open>mdx_batch_size\<close>
  is \<open>1\<close>, so the inner loop over \<^verbatim>\<open>mix_waves\<close> runs once, on a batch of one chunk.
  The three in-place operations raise when the chunk that \<^verbatim>\<open>istft\<close> returns has too
  few columns; an exception ends \<^verbatim>\<open>demix\<close>.
\<close>

definition demix_chunk ::
  "conv_tdf_net_trim_model \<Rightarrow> (spectrum \<Rightarrow> spectrum) \<Rightarrow> real \<Rightarrow> waveform \<Rightarrow> nat \<Rightarrow>
   waveform \<times> waveform \<Rightarrow> py_error + (waveform \<times> waveform)" where
  "demix_chunk m infer_session overlap mixture i acc =
     (let result = fst acc;
          divider = snd acc;
          start = i;
          stop = min (i + chunk_size m) (length mixture);
          chunk_size_actual = stop - start;
          window = (if overlap = 0 then None
                    else Some (map (\<lambda>w. (w, w)) (hanning chunk_size_actual)));
          mix_part' = slice_between mixture (int start) (int stop);
          mix_part = (if stop \<noteq> i + chunk_size m
                      then mix_part' @ replicate ((i + chunk_size m) - stop) (0, 0)
                      else mix_part');
          tar_waves = infer_chunk m infer_session mix_part
      in case window of
           Some w \<Rightarrow>
             (case inplace frame_mul (slice_to tar_waves (int chunk_size_actual)) w of
                Inl e \<Rightarrow> Inl e
              | Inr windowed \<Rightarrow>
                  (let tar_waves = windowed @ slice_from tar_waves (int chunk_size_actual)
                   in case add_slice start stop w divider of
                        Inl e \<Rightarrow> Inl e
                      | Inr divider \<Rightarrow>
                          (case add_slice start stop
                                  (slice_to tar_waves (int (stop - start))) result of
                             Inl e \<Rightarrow> Inl e
                           | Inr result \<Rightarrow> Inr (result, divider))))
         | None \<Rightarrow>
             (case add_slice start stop (replicate (stop - start) (1, 1)) divider of
                Inl e \<Rightarrow> Inl e
              | Inr divider \<Rightarrow>
                  (case add_slice start stop
                          (slice_to tar_waves (int (stop - start))) result of
                     Inl e \<Rightarrow> Inl e
                   | Inr result \<Rightarrow> Inr (result, divider))))"

fun demix_loop ::
  "conv_tdf_net_trim_model \<Rightarrow> (spectrum \<Rightarrow> spectrum) \<Rightarrow> real \<Rightarrow> waveform \<Rightarrow> nat list \<Rightarrow>
   waveform \<times> waveform \<Rightarrow> py_error + (waveform \<times> waveform)" where
  \<comment> \<open>\<^verbatim>\<open>for i in range(0, mixture.shape[-1], step)\<close>\<close>
  "demix_loop m infer_session overlap mixture [] acc = Inr acc"
| "demix_loop m infer_session overlap mixture (i # starts) acc =
     (case demix_chunk m infer_session overlap mixture i acc of
        Inl e \<Rightarrow> Inl e
      | Inr acc' \<Rightarrow> demix_loop m infer_session overlap mixture starts acc')"

definition demix_mixture :: "conv_tdf_net_trim_model \<Rightarrow> waveform \<Rightarrow> py_error + waveform" where
  \<comment> \<open>the padded input; \<^verbatim>\<open>%\<close> by zero and a negative size for \<^verbatim>\<open>np.zeros\<close> raise\<close>
  "demix_mixture m mix =
     (let trim = n_fft m div 2;
          gen_size = int (chunk_size m) - 2 * int trim
      in if gen_size = 0 then Inl ZeroDivisionError
         else let pad = gen_size + int trim - (int (length mix) mod gen_size)
              in if pad < 0 then Inl ValueError
                 else Inr (replicate trim (0, 0) @ mix @ replicate (nat pad) (0, 0)))"

definition demix_accumulate ::
  "conv_tdf_net_trim_model \<Rightarrow> (spectrum \<Rightarrow> spectrum) \<Rightarrow> real \<Rightarrow> waveform \<Rightarrow>
   py_error + (waveform \<times> waveform)" where
  \<comment> \<open>from the stride to the end of the chunk loop; the pair is \<^verbatim>\<open>(result, divider)\<close>\<close>
  "demix_accumulate m infer_session overlap mixture =
     (case demix_step overlap (chunk_size m) of
        Inl e \<Rightarrow> Inl e
      | Inr step \<Rightarrow>
          (let result = replicate (length mixture) (0, 0);
               divider = replicate (length mixture) (0, 0)
           in case py_range_step (length mixture) step of
                Inl e \<Rightarrow> Inl e
              | Inr starts \<Rightarrow>
                  demix_loop m infer_session overlap mixture starts (result, divider)))"

definition demix ::
  "waveform \<Rightarrow> conv_tdf_net_trim_model \<Rightarrow> (spectrum \<Rightarrow> spectrum) \<Rightarrow> real \<Rightarrow>
   py_error + oframe list" where
  "demix mix m infer_session overlap =
     (let trim = n_fft m div 2
      in case demix_mixture m mix of
           Inl e \<Rightarrow> Inl e
         | Inr mixture \<Rightarrow>
             (case demix_accumulate m infer_session overlap mixture of
                Inl e \<Rightarrow> Inl e
              | Inr (result, divider) \<Rightarrow>
                  (let tar_waves = map2 frame_div result divider;
                       tar_waves' = slice_between tar_waves (int trim) (- int trim);
                       tar_waves = slice_to tar_waves' (int (length mix))
                   in Inr tar_waves)))"

text \<open>
  For the analysis of the accumulators. \<open>slice_sum\<close> is the array after
  \<^verbatim>\<open>acc[..., start:stop] += vals\<close> when \<open>vals\<close> has the length of the slice, and
  \<open>chunk_values\<close> is the pair of accumulators after one iteration that raises nothing;
  the lemmas below show that \<^verbatim>\<open>demix\<close> computes these values whenever the chunk
  transform returns chunks of \<open>chunk_size\<close> columns. \<open>chunk_weight\<close> is the weight that
  the chunk starting at \<open>i\<close> adds to \<^verbatim>\<open>divider\<close> at position \<open>p\<close>, for a chunk size
  \<open>cs\<close> and a padded input of length \<open>L\<close>: the window's value at \<open>p - i\<close> inside the
  chunk (\<open>1\<close> without a window) and \<open>0\<close> outside.
\<close>

definition slice_sum :: "nat \<Rightarrow> nat \<Rightarrow> waveform \<Rightarrow> waveform \<Rightarrow> waveform" where
  "slice_sum start stop vals acc =
     take start acc @ map2 frame_add (take (stop - start) (drop start acc)) vals @ drop stop acc"

definition chunk_values ::
  "conv_tdf_net_trim_model \<Rightarrow> (spectrum \<Rightarrow> spectrum) \<Rightarrow> real \<Rightarrow> waveform \<Rightarrow> nat \<Rightarrow>
   waveform \<times> waveform \<Rightarrow> waveform \<times> waveform" where
  "chunk_values m infer_session overlap mixture i acc =
     (let result = fst acc;
          divider = snd acc;
          start = i;
          stop = min (i + chunk_size m) (length mixture);
          chunk_size_actual = stop - start;
          window = (if overlap = 0 then None
                    else Some (map (\<lambda>w. (w, w)) (hanning chunk_size_actual)));
          mix_part' = slice_between mixture (int start) (int stop);
          mix_part = (if stop \<noteq> i + chunk_size m
                      then mix_part' @ replicate ((i + chunk_size m) - stop) (0, 0)
                      else mix_part');
          tar_waves = infer_chunk m infer_session mix_part
      in case window of
           Some w \<Rightarrow>
             (let tar_waves = map2 frame_mul (take chunk_size_actual tar_waves) w
                                @ drop chunk_size_actual tar_waves;
                  divider = slice_sum start stop w divider
              in (slice_sum start stop (take (stop - start) tar_waves) result, divider))
         | None \<Rightarrow>
             (let divider = slice_sum start stop (replicate (stop - start) (1, 1)) divider
              in (slice_sum start stop (take (stop - start) tar_waves) result, divider)))"

definition chunk_weight :: "real \<Rightarrow> nat \<Rightarrow> nat \<Rightarrow> nat \<Rightarrow> nat \<Rightarrow> real" where
  "chunk_weight overlap cs L i p =
     (if i \<le> p \<and> p < min (i + cs) L
      then (if overlap = 0 then 1 else hanning (min (i + cs) L - i) ! (p - i))
      else 0)"

section \<open>The circular-shift ensemblers\<close>

text \<open>
  The outputs of the backends are arrays of samples that may be NaN or infinite
  (\<open>None\<close>); scaling and averaging keep such a sample as it is.
\<close>

definition finite_frames :: "waveform \<Rightarrow> oframe list" where
  \<comment> \<open>a waveform as an array of finite samples\<close>
  "finite_frames w = map (\<lambda>f. (Some (fst f), Some (snd f))) w"

definition oframe_scale :: "real \<Rightarrow> oframe \<Rightarrow> oframe" where
  "oframe_scale c f = (map_option ((*) c) (fst f), map_option ((*) c) (snd f))"

definition sample_add :: "real option \<Rightarrow> real option \<Rightarrow> real option" where
  "sample_add a b = (case (a, b) of (Some x, Some y) \<Rightarrow> Some (x + y) | _ \<Rightarrow> None)"

definition oframe_add :: "oframe \<Rightarrow> oframe \<Rightarrow> oframe" where
  "oframe_add a b = (sample_add (fst a) (fst b), sample_add (snd a) (snd b))"

fun np_mean :: "oframe list list \<Rightarrow> oframe list" where
  \<comment> \<open>\<^verbatim>\<open>np.mean(results, axis=0)\<close>: the sum of the arrays over their number\<close>
  "np_mean [] = []"
| "np_mean (r # rs) =
     map (\<lambda>f. (map_option (\<lambda>x. x / real (length (r # rs))) (fst f),
               map_option (\<lambda>x. x / real (length (r # rs))) (snd f)))
       (fold (\<lambda>a acc. map2 oframe_add acc a) rs r)"

fun demix_wrapper_results ::
  "(waveform \<Rightarrow> py_error + oframe list) \<Rightarrow> waveform \<Rightarrow> nat list \<Rightarrow> py_error + oframe list list" where
  \<comment> \<open>the loop over \<^verbatim>\<open>shifts\<close> of \<^verbatim>\<open>demix_wrapper\<close>; an exception of \<^verbatim>\<open>demix\<close> ends it\<close>
  "demix_wrapper_results dmx mix [] = Inr []"
| "demix_wrapper_results dmx mix (shift # shifts) =
     (case dmx (shifted_mix shift mix) of
        Inl e \<Rightarrow> Inl e
      | Inr sources \<Rightarrow>
          (let sources = map (oframe_scale 1.021) sources;
               restored = restored_sources shift sources
           in case demix_wrapper_results dmx mix shifts of
                Inl e \<Rightarrow> Inl e
              | Inr results \<Rightarrow> Inr (restored # results)))"

definition demix_wrapper ::
  "waveform \<Rightarrow> conv_tdf_net_trim_model \<Rightarrow> (spectrum \<Rightarrow> spectrum) \<Rightarrow> real \<Rightarrow> int \<Rightarrow>
   py_error + oframe list" where
  "demix_wrapper mix m infer_session overlap bigshifts =
     (let shifts = shift_list (length mix) bigshifts
      in case demix_wrapper_results (\<lambda>x. demix x m infer_session overlap) mix shifts of
           Inl e \<Rightarrow> Inl e
         | Inr results \<Rightarrow> Inr (np_mean results))"

text \<open>
  \<^verbatim>\<open>demix_full_mdx23c\<close>; \<open>demix_base_mdxv3\<close> stands for the call
  \<^verbatim>\<open>demix_base_mdxv3(model, shifted_mix, device)["Vocals"]\<close> of the network, and
  \<open>BigShifts\<close> for \<^verbatim>\<open>options["BigShifts"]\<close>.
\<close>

definition demix_full_mdx23c ::
  "int \<Rightarrow> ('a list \<Rightarrow> oframe list) \<Rightarrow> 'a list \<Rightarrow> oframe list" where
  "demix_full_mdx23c BigShifts demix_base_mdxv3 mix =
     (let shifts = shift_list (length mix) BigShifts;
          results = map (\<lambda>shift.
                      let sources = demix_base_mdxv3 (shifted_mix shift mix);
                          sources = map (oframe_scale 1.0005168) sources
                      in restored_sources shift sources) shifts
      in np_mean results)"

text \<open>
  \<^verbatim>\<open>demix_full_vitlarge\<close>; \<open>demix_vitlarge\<close> stands for the network call and returns the
  pair of its entries \<^verbatim>\<open>"vocals"\<close> and \<^verbatim>\<open>"other"\<close>.
\<close>

definition demix_full_vitlarge ::
  "int \<Rightarrow> ('a list \<Rightarrow> oframe list \<times> oframe list) \<Rightarrow> 'a list \<Rightarrow> oframe list \<times> oframe list" where
  "demix_full_vitlarge BigShifts demix_vitlarge mix =
     (let shifts = shift_list (length mix) BigShifts;
          results1 = map (\<lambda>shift.
                       let sources = demix_vitlarge (shifted_mix shift mix);
                           sources1 = map (oframe_scale 1.002) (fst sources)
                       in restored_sources shift sources1) shifts;
          results2 = map (\<lambda>shift.
                       let sources = demix_vitlarge (shifted_mix shift mix);
                           sources2 = snd sources
                       in restored_sources shift sources2) shifts
      in (np_mean results1, np_mean results2))"

section \<open>The batch entry point\<close>

text \<open>
  \<^verbatim>\<open>predict_with_model\<close> reads the global \<^verbatim>\<open>options\<close> dictionary; the record holds the
  entries it uses (\<open>callback\<close> says whether \<^verbatim>\<open>options['callback']\<close> is callable). The
  file system is the predicate \<open>isfile\<close>. Loading the models and loading, separating and
  writing a file are recorded as events, in the order the code performs them; their
  own failures (a download, an unreadable file) are outside this model. Paths follow
  \<^verbatim>\<open>posixpath\<close>.
\<close>

record options =
  input_audio :: "string list"
  output_folder :: string
  vocals_only :: bool
  callback :: bool

datatype event =
    Print string
  | MakeDirs string
  | LoadModel
  | Callback nat string nat
  | Load string
  | Separate string
  | Write string

record outcome =
  events :: "event list"
  returned :: "string list option"

definition basename :: "string \<Rightarrow> string" where
  \<comment> \<open>\<^verbatim>\<open>os.path.basename\<close>: what follows the last \<open>/\<close>\<close>
  "basename p = rev (takeWhile (\<lambda>c. c \<noteq> CHR ''/'') (rev p))"

definition splitext_root :: "string \<Rightarrow> string" where
  \<comment> \<open>\<^verbatim>\<open>os.path.splitext(name)[0]\<close> for a name without \<open>/\<close>: cut at the last dot, unless
      only dots precede it\<close>
  "splitext_root name =
     (if CHR ''.'' \<notin> set name then name
      else let ext = rev (takeWhile (\<lambda>c. c \<noteq> CHR ''.'') (rev name));
               root = take (length name - length ext - 1) name
           in if list_all (\<lambda>c. c = CHR ''.'') root then name else root)"

definition path_join :: "string \<Rightarrow> string \<Rightarrow> string" where
  \<comment> \<open>\<^verbatim>\<open>os.path.join(a, b)\<close>\<close>
  "path_join a b =
     (if take 1 b = ''/'' then b
      else if a = [] \<or> drop (length a - 1) a = ''/'' then a @ b
      else a @ ''/'' @ b)"

definition instruments :: "options \<Rightarrow> string list" where
  "instruments opts =
     (if \<not> vocals_only opts then [''bass'', ''drums'', ''other'', ''vocals''] else [''vocals''])"

definition out_path :: "options \<Rightarrow> string \<Rightarrow> string \<Rightarrow> string" where
  \<comment> \<open>\<^verbatim>\<open>output_name = os.path.splitext(os.path.basename(input_audio))[0] + '_{}.wav'.format(instrum)\<close>;
      \<^verbatim>\<open>out_path = os.path.join(output_folder, output_name)\<close>\<close>
  "out_path opts audio_path instrum =
     path_join (output_folder opts) (splitext_root (basename audio_path) @ ''_'' @ instrum @ ''.wav'')"

definition written_paths :: "options \<Rightarrow> string \<Rightarrow> string list" where
  \<comment> \<open>the paths written for one input: one for each instrument, then \<open>instrum\<close>\<close>
  "written_paths opts audio_path =
     map (out_path opts audio_path) (instruments opts) @ [out_path opts audio_path ''instrum'']"

definition run_callback :: "options \<Rightarrow> nat \<Rightarrow> string \<Rightarrow> nat \<Rightarrow> event list" where
  \<comment> \<open>\<^verbatim>\<open>if callable(actual_callback): actual_callback(step, desc, total)\<close>\<close>
  "run_callback opts step desc total_steps =
     (if callback opts then [Callback step desc total_steps] else [])"

fun first_missing :: "(string \<Rightarrow> bool) \<Rightarrow> string list \<Rightarrow> string option" where
  \<comment> \<open>the validation loop: the path at which it prints and returns, if any\<close>
  "first_missing isfile [] = None"
| "first_missing isfile (p # ps) = (if \<not> isfile p then Some p else first_missing isfile ps)"

fun process_files :: "options \<Rightarrow> nat \<Rightarrow> nat \<Rightarrow> string list \<Rightarrow> event list \<times> string list" where
  \<comment> \<open>the loop over the input files, from \<^verbatim>\<open>current_step\<close>: its events and the paths it
      appends to \<^verbatim>\<open>output_files\<close>\<close>
  "process_files opts total_steps current_step [] = ([], [])"
| "process_files opts total_steps current_step (audio_path # rest) =
     (let ev1 = run_callback opts current_step (''Processing '' @ audio_path) total_steps;
          ev2 = [Load audio_path];
          current_step = current_step + 1;
          ev3 = run_callback opts current_step (''Loaded '' @ audio_path) total_steps;
          ev4 = [Separate audio_path];
          current_step = current_step + 1;
          ev5 = run_callback opts current_step (''Separated '' @ audio_path) total_steps;
          paths = written_paths opts audio_path;
          ev6 = map Write paths;
          current_step = current_step + 1;
          ev7 = run_callback opts current_step (''Completed processing '' @ audio_path) total_steps;
          later = process_files opts total_steps current_step rest
      in (ev1 @ ev2 @ ev3 @ ev4 @ ev5 @ ev6 @ ev7 @ fst later, paths @ snd later))"

definition predict_with_model :: "(string \<Rightarrow> bool) \<Rightarrow> options \<Rightarrow> outcome" where
  "predict_with_model isfile opts =
     (let total_steps = length (input_audio opts) * 3
      in case first_missing isfile (input_audio opts) of
           Some p \<Rightarrow>
             \<lparr>events = [Print (''Error. No such file: '' @ p @ ''. Please check path!'')],
              returned = None\<rparr>
         | None \<Rightarrow>
             (let files = process_files opts total_steps 0 (input_audio opts)
              in \<lparr>events = [MakeDirs (output_folder opts), LoadModel]
                     @ run_callback opts 0 ''Initializing model'' total_steps
                     @ fst files
                     @ run_callback opts total_steps ''All files processed'' total_steps,
                  returned = Some (snd files)\<rparr>))"

definition separate_music :: "(string \<Rightarrow> bool) \<Rightarrow> options \<Rightarrow> string list option" where
  \<comment> \<open>\<^verbatim>\<open>out_files = predict_with_model()\<close>; \<^verbatim>\<open>return out_files\<close>\<close>
  "separate_music isfile opts = returned (predict_with_model isfile opts)"

section \<open>Test inputs\<close>

text \<open>
  Small concrete models and backends on which the theorems below are evaluated: an
  STFT that returns one channel of four bins holding \<open>1\<close>, a network that adds \<open>1\<close> to
  every entry of its input.
\<close>

definition unit_spectrum_stft :: "waveform \<Rightarrow> spectrum" where
  "unit_spectrum_stft w = [[[[1], [1], [1], [1]]]]"

definition increment_session :: "spectrum \<Rightarrow> spectrum" where
  "increment_session s = map (map (map (map (\<lambda>x. x + 1)))) s"

definition unit_spectrum_model :: conv_tdf_net_trim_model where
  "unit_spectrum_model = \<lparr>n_fft = 2, hop = 1, stft = unit_spectrum_stft, istft = (\<lambda>s. [])\<rparr>"

text \<open>
  A model whose chunk transform is the identity: the STFT lays the two channels in bins
  \<open>3\<close> and \<open>4\<close> of one spectrum channel and leaves bins \<open>0\<close> to \<open>2\<close> empty, the
  inverse reads them back, and the network returns its input. Its sizes are those of the
  model \<^verbatim>\<open>get_models(vocals_model_type=2)\<close> builds.
\<close>

definition split_stft :: "waveform \<Rightarrow> spectrum" where
  "split_stft w = [[[[], [], [], map fst w, map snd w]]]"

definition join_istft :: "spectrum \<Rightarrow> waveform" where
  "join_istft s = (case s of [[[b0, b1, b2, l, r]]] \<Rightarrow> zip l r | _ \<Rightarrow> [])"

definition identity_session :: "spectrum \<Rightarrow> spectrum" where
  "identity_session s = s"

definition identity_model :: conv_tdf_net_trim_model where
  "identity_model = \<lparr>n_fft = 7680, hop = 1024, stft = split_stft, istft = join_istft\<rparr>"

definition two_files :: options where
  \<comment> \<open>a batch of an existing and a missing file\<close>
  "two_files = \<lparr>input_audio = [''a.wav'', ''missing.wav''], output_folder = ''out'',
                 vocals_only = True, callback = False\<rparr>"

definition only_a_exists :: "string \<Rightarrow> bool" where
  "only_a_exists p = (p = ''a.wav'')"

section \<open>Properties of the circular shift\<close>

lemma shifted_mix_eq:
  "k \<le> length xs \<Longrightarrow> shifted_mix k xs = drop (length xs - k) xs @ take (length xs - k) xs"
  by (cases "k = 0") (simp_all add: shifted_mix_def slice_from_def slice_to_def norm_idx_def
      nat_diff_distrib' of_nat_diff)

lemma restored_sources_eq:
  "restored_sources k ys = drop k ys @ take k ys"
  by (simp add: restored_sources_def slice_from_def slice_to_def norm_idx_def min_def)

text \<open>
  C7. Shift round-trip: for a waveform of length \<open>N\<close> and an offset \<open>k\<close> with
  \<open>0 \<le> k < N\<close>, the rotation of the ensemblers (the last \<open>k\<close> samples placed before the
  first \<open>N - k\<close>) followed by the restore step (the samples from index \<open>k\<close> on placed
  before the first \<open>k\<close>) gives back the waveform.
\<close>

theorem shift_round_trip:
  assumes "length mix = N" and "k < N"
  shows "restored_sources k (shifted_mix k mix) = mix"
proof -
  have k: "k \<le> length mix" using assms by simp
  have "restored_sources k (shifted_mix k mix)
        = drop k (drop (length mix - k) mix @ take (length mix - k) mix)
          @ take k (drop (length mix - k) mix @ take (length mix - k) mix)"
    by (simp only: shifted_mix_eq [OF k] restored_sources_eq)
  also have "\<dots> = take (length mix - k) mix @ drop (length mix - k) mix"
    using k by simp
  finally show ?thesis by simp
qed

theorem shift_round_trip_witness:
  "length [(1::int, 2::int), (3, 4), (5, 6)] = 3 \<and> (1::nat) < 3 \<and>
   shifted_mix 1 [(1::int, 2::int), (3, 4), (5, 6)] = [(5, 6), (1, 2), (3, 4)] \<and>
   restored_sources 1 (shifted_mix 1 [(1::int, 2::int), (3, 4), (5, 6)]) = [(1, 2), (3, 4), (5, 6)]"
  using shift_round_trip [of "[(1::int, 2::int), (3, 4), (5, 6)]" 3 1]
  by (simp add: shifted_mix_def slice_from_def slice_to_def norm_idx_def)

section \<open>The unrotated pass of the ensemblers\<close>

lemma count_zero_products:
  "0 < b \<Longrightarrow> length (filter (\<lambda>s. s = 0) (map (\<lambda>x. x * s) [0..<b])) = (if s = 0 then b else 1)"
  by (induction b) (auto simp: gr0_conv_Suc)

lemma shift_list_nonempty: "shift_list n b \<noteq> []"
  by (simp add: shift_list_def effective_bigshifts_def Let_def)

lemma shift_list_first: "shift_list n b ! 0 = 0"
  by (simp add: shift_list_def effective_bigshifts_def Let_def nth_map_upt)

lemma shifted_mix_zero: "shifted_mix 0 mix = mix"
  by (simp add: shifted_mix_def slice_from_def slice_to_def norm_idx_def)

lemma restored_sources_zero: "restored_sources 0 s = s"
  by (simp add: restored_sources_def slice_from_def slice_to_def norm_idx_def)

lemma count_unrotated:
  "length (filter (\<lambda>s. s = 0) (shift_list n b)) =
     (if n < effective_bigshifts b then effective_bigshifts b else 1)"
proof -
  have pos: "0 < effective_bigshifts b" by (simp add: effective_bigshifts_def)
  have "(n div effective_bigshifts b = 0) = (n < effective_bigshifts b)"
    using pos by (simp add: div_eq_0_iff)
  then show ?thesis
    using count_zero_products [OF pos, of "n div effective_bigshifts b"]
    by (simp add: shift_list_def Let_def)
qed

text \<open>
  C10, as the code has it. The shift list is never empty and its first offset is \<open>0\<close>;
  rotating by \<open>0\<close> and restoring by \<open>0\<close> leave an array unchanged; so every run has
  at least one pass on the unrotated waveform. It has exactly one when the waveform has
  at least \<open>bigshifts\<close> samples; a shorter waveform makes \<^verbatim>\<open>shift_in_samples\<close> zero, and
  then all the \<open>bigshifts\<close> passes are unrotated. With \<open>bigshifts = 1\<close> the only pass is
  the unrotated one.
\<close>

theorem zero_shift_unrotated_pass:
  "shift_list n b \<noteq> [] \<and> shift_list n b ! 0 = 0 \<and>
   shifted_mix 0 mix = mix \<and> restored_sources 0 sources = sources \<and>
   1 \<le> length (filter (\<lambda>s. s = 0) (shift_list n b)) \<and>
   (effective_bigshifts b \<le> n \<longrightarrow> length (filter (\<lambda>s. s = 0) (shift_list n b)) = 1) \<and>
   (n < effective_bigshifts b \<longrightarrow> shift_list n b = replicate (effective_bigshifts b) 0) \<and>
   shift_list n 1 = [0]"
proof -
  have pos: "0 < effective_bigshifts b" by (simp add: effective_bigshifts_def)
  have short: "n < effective_bigshifts b \<Longrightarrow> shift_list n b = replicate (effective_bigshifts b) 0"
    by (simp add: shift_list_def Let_def map_replicate_const)
  have one: "shift_list n 1 = [0]"
    by (simp add: shift_list_def effective_bigshifts_def)
  show ?thesis
    using pos short one
    by (simp add: shift_list_nonempty shift_list_first shifted_mix_zero restored_sources_zero
        count_unrotated)
qed

theorem zero_shift_unrotated_pass_witness:
  "effective_bigshifts 7 \<le> (21::nat) \<and> shift_list 21 7 = [0, 3, 6, 9, 12, 15, 18] \<and>
   length (filter (\<lambda>s. s = 0) (shift_list 21 7)) = 1 \<and>
   (3::nat) < effective_bigshifts 7 \<and> shift_list 3 7 = [0, 0, 0, 0, 0, 0, 0]"
  using zero_shift_unrotated_pass [of 21 7 "[]::nat list" "[]::nat list"]
    zero_shift_unrotated_pass [of 3 7 "[]::nat list" "[]::nat list"]
  by (simp add: shift_list_def effective_bigshifts_def upt_rec)

text \<open>
  The count "exactly one" of C10 fails for a waveform shorter than the number of shifts:
  one sample and two shifts give the offsets \<open>0, 0\<close>, two unrotated passes.
\<close>

theorem exactly_one_unrotated_pass_counterexample:
  "shift_list 1 2 = [0, 0] \<and> length (filter (\<lambda>s. s = 0) (shift_list 1 2)) \<noteq> 1"
  by (simp add: shift_list_def effective_bigshifts_def upt_rec)

section \<open>Element-wise arithmetic: indexing lemmas\<close>

lemma arr_sub_nth: "i < length a \<Longrightarrow> i < length b \<Longrightarrow> arr_sub a b ! i = a ! i - b ! i"
  by (simp add: arr_sub_def)

lemma arr_add_nth: "i < length a \<Longrightarrow> i < length b \<Longrightarrow> arr_add a b ! i = a ! i + b ! i"
  by (simp add: arr_add_def)

lemma arr_scale_nth: "i < length a \<Longrightarrow> arr_scale c a ! i = c * a ! i"
  by (simp add: arr_scale_def)

lemma length_arr_sub: "length (arr_sub a b) = min (length a) (length b)"
  by (simp add: arr_sub_def)

lemma length_arr_add: "length (arr_add a b) = min (length a) (length b)"
  by (simp add: arr_add_def)

lemma length_arr_scale: "length (arr_scale c a) = length a"
  by (simp add: arr_scale_def)

lemma length_np_clip: "length (np_clip a lo hi) = length a"
  by (simp add: np_clip_def)

lemma arr_div_nth: "j < length a \<Longrightarrow> c \<noteq> 0 \<Longrightarrow> arr_div a c ! j = Some (a ! j / c)"
  by (simp add: arr_div_def fdiv_def)

section \<open>The final correction pass\<close>

lemma residual_refinement_entries:
  "residual_refinement mix vocals out0 out1 out2 Map.empty ''other'' =
     Some (map (\<lambda>x. x / 3)
       (arr_add (arr_scale 2 (np_clip (arr_sub (arr_sub (arr_sub mix vocals) out0) out1) (-1) 1)) out2))"
  "residual_refinement mix vocals out0 out1 out2 Map.empty ''drums'' =
     Some (map (\<lambda>x. x / 3)
       (arr_add (np_clip (arr_sub (arr_sub (arr_sub mix vocals) out1) out2) (-1) 1) (arr_scale 2 out0)))"
  "residual_refinement mix vocals out0 out1 out2 Map.empty ''bass'' =
     Some (map (\<lambda>x. x / 3)
       (arr_add (np_clip (arr_sub (arr_sub (arr_sub mix vocals) out0) out2) (-1) 1) (arr_scale 2 out1)))"
  by (simp_all add: residual_refinement_def Let_def)

lemma final_correction_snapshot:
  assumes "s ''bass'' = Some bass" and "s ''drums'' = Some drums" and "s ''other'' = Some other"
  shows "final_correction mix vocals s =
     Some (s(''other'' \<mapsto> arr_sub (arr_sub (arr_sub mix vocals) bass) drums,
             ''drums'' \<mapsto> arr_sub (arr_sub (arr_sub mix vocals) bass) other,
             ''bass'' \<mapsto> arr_sub (arr_sub (arr_sub mix vocals) drums) other))"
  using assms by (simp add: final_correction_def Let_def)

text \<open>
  C2, as the code has it. The pass reads \<^verbatim>\<open>bass\<close>, \<^verbatim>\<open>drums\<close> and \<^verbatim>\<open>other\<close> into
  local variables before it assigns anything, so each of the three stems is recomputed
  from the values the other two had before the pass:
  \<open>other = mix - vocals - bass - drums\<close>, \<open>drums = mix - vocals - bass - other\<close>,
  \<open>bass = mix - vocals - drums - other\<close>, all right-hand sides being the old values.
  The result does not depend on the order of the three assignments.
\<close>

theorem final_correction_reads_old_values:
  assumes "s ''bass'' = Some bass" and "s ''drums'' = Some drums" and "s ''other'' = Some other"
  shows "final_correction mix vocals s =
     Some (s(''other'' \<mapsto> arr_sub (arr_sub (arr_sub mix vocals) bass) drums,
             ''drums'' \<mapsto> arr_sub (arr_sub (arr_sub mix vocals) bass) other,
             ''bass'' \<mapsto> arr_sub (arr_sub (arr_sub mix vocals) drums) other)) \<and>
    final_correction mix vocals s =
     Some (s(''bass'' \<mapsto> arr_sub (arr_sub (arr_sub mix vocals) drums) other,
             ''drums'' \<mapsto> arr_sub (arr_sub (arr_sub mix vocals) bass) other,
             ''other'' \<mapsto> arr_sub (arr_sub (arr_sub mix vocals) bass) drums))"
  using assms by (auto simp add: final_correction_def Let_def fun_upd_def)

theorem final_correction_reads_old_values_witness:
  "unit_stems ''bass'' = Some [0] \<and> unit_stems ''drums'' = Some [0] \<and>
   unit_stems ''other'' = Some [0] \<and>
   final_correction [1] [0] unit_stems =
     Some (unit_stems(''other'' \<mapsto> [1], ''drums'' \<mapsto> [1], ''bass'' \<mapsto> [1]))"
  using final_correction_reads_old_values [of unit_stems "[0]" "[0]" "[0]" "[1]" "[0]"]
  by (simp add: unit_stems_def arr_sub_def)

text \<open>
  The sequential reading of C2 differs from the code: on a one-sample mix \<open>1\<close> with
  silent vocals and stems, the code returns \<open>drums = 1\<close>, where a pass that read the
  just-updated \<open>other = 1\<close> would return \<open>drums = 0\<close>.
\<close>

theorem final_correction_sequential_counterexample:
  "map_option (\<lambda>s. s ''drums'') (final_correction [1] [0] unit_stems) = Some (Some [1]) \<and>
   map_option (\<lambda>s. s ''drums'') (final_correction_sequential [1] [0] unit_stems) = Some (Some [0]) \<and>
   final_correction [1] [0] unit_stems \<noteq> final_correction_sequential [1] [0] unit_stems"
proof -
  have a: "map_option (\<lambda>s. s ''drums'') (final_correction [1] [0] unit_stems) = Some (Some [1])"
    by (simp add: final_correction_def unit_stems_def Let_def arr_sub_def)
  have b: "map_option (\<lambda>s. s ''drums'') (final_correction_sequential [1] [0] unit_stems)
           = Some (Some [0])"
    by (simp add: final_correction_sequential_def unit_stems_def Let_def arr_sub_def)
  from a b have "final_correction [1] [0] unit_stems \<noteq> final_correction_sequential [1] [0] unit_stems"
    by auto
  with a b show ?thesis by simp
qed

text \<open>
  C1, as the code has it. For arrays of one shape the stems returned by
  \<^verbatim>\<open>separate_music_file\<close> sum to
  \<open>mix + 2 * (mix - vocals - bass - drums - other)\<close>, where \<open>bass\<close>, \<open>drums\<close> and
  \<open>other\<close> are the stems before the final pass (after the clipped residual refinement).
  So \<open>vocals + bass + drums + other = mix\<close> holds after the pass exactly when the stems
  before the pass already summed to \<open>mix - vocals\<close>.
\<close>

theorem stem_total_after_final_correction:
  assumes "length mix = n" and "length vocals = n"
    and "length out0 = n" and "length out1 = n" and "length out2 = n"
  shows "\<exists>s t bass drums other.
     separate_stems mix vocals out0 out1 out2 = Some s \<and>
     residual_refinement mix vocals out0 out1 out2 Map.empty ''bass'' = Some bass \<and>
     residual_refinement mix vocals out0 out1 out2 Map.empty ''drums'' = Some drums \<and>
     residual_refinement mix vocals out0 out1 out2 Map.empty ''other'' = Some other \<and>
     stem_total s = Some t \<and> length t = n \<and>
     (\<forall>i<n. t ! i = mix ! i + 2 * (mix ! i - vocals ! i - bass ! i - drums ! i - other ! i)) \<and>
     (t = mix \<longleftrightarrow> (\<forall>i<n. bass ! i + drums ! i + other ! i = mix ! i - vocals ! i))"
proof -
  let ?r = "residual_refinement mix vocals out0 out1 out2 Map.empty"
  obtain bass drums other where
    b: "?r ''bass'' = Some bass" and d: "?r ''drums'' = Some drums" and o: "?r ''other'' = Some other"
    by (simp add: residual_refinement_entries)
  have lb: "length bass = n" and ld: "length drums = n" and lo: "length other = n"
    using b d o assms
    by (auto simp add: residual_refinement_entries length_arr_add length_arr_sub
        length_arr_scale length_np_clip)
  let ?m = "arr_sub mix vocals"
  let ?s = "(?r(''other'' \<mapsto> arr_sub (arr_sub ?m bass) drums,
                ''drums'' \<mapsto> arr_sub (arr_sub ?m bass) other,
                ''bass'' \<mapsto> arr_sub (arr_sub ?m drums) other))
            (''vocals'' \<mapsto> vocals, ''instrum'' \<mapsto> ?m)"
  let ?t = "arr_add (arr_add (arr_add vocals (arr_sub (arr_sub ?m drums) other))
              (arr_sub (arr_sub ?m bass) other)) (arr_sub (arr_sub ?m bass) drums)"
  have sep: "separate_stems mix vocals out0 out1 out2 = Some ?s"
    by (simp add: separate_stems_def Let_def final_correction_snapshot [OF b d o])
  have tot: "stem_total ?s = Some ?t"
    by (simp add: stem_total_def)
  have lt: "length ?t = n"
    using assms lb ld lo by (simp add: length_arr_add length_arr_sub)
  have nth: "\<forall>i<n. ?t ! i = mix ! i + 2 * (mix ! i - vocals ! i - bass ! i - drums ! i - other ! i)"
    using assms lb ld lo
    by (simp add: arr_add_nth arr_sub_nth length_arr_add length_arr_sub)
  have iff: "?t = mix \<longleftrightarrow> (\<forall>i<n. bass ! i + drums ! i + other ! i = mix ! i - vocals ! i)"
  proof -
    have "?t = mix \<longleftrightarrow> (\<forall>i<n. ?t ! i = mix ! i)"
      using lt assms(1) by (auto simp add: list_eq_iff_nth_eq)
    also have "\<dots> \<longleftrightarrow> (\<forall>i<n. bass ! i + drums ! i + other ! i = mix ! i - vocals ! i)"
      using nth by auto
    finally show ?thesis .
  qed
  show ?thesis
    using sep b d o tot lt nth iff by blast
qed

theorem stem_total_after_final_correction_witness:
  "length [1::real] = 1 \<and> length [0::real] = 1 \<and>
   (\<exists>s t bass drums other.
     separate_stems [1] [0] [0] [0] [0] = Some s \<and>
     residual_refinement [1] [0] [0] [0] [0] Map.empty ''bass'' = Some bass \<and>
     residual_refinement [1] [0] [0] [0] [0] Map.empty ''drums'' = Some drums \<and>
     residual_refinement [1] [0] [0] [0] [0] Map.empty ''other'' = Some other \<and>
     stem_total s = Some t \<and> length t = 1 \<and>
     (\<forall>i<1. t ! i = [1] ! i + 2 * ([1] ! i - [0] ! i - bass ! i - drums ! i - other ! i)) \<and>
     (t = [1] \<longleftrightarrow> (\<forall>i<1. bass ! i + drums ! i + other ! i = [1] ! i - [0] ! i)))"
  using stem_total_after_final_correction [of "[1]" 1 "[0]" "[0]" "[0]" "[0]"]
  by simp

text \<open>
  Closure as C1 states it fails: a one-sample mix \<open>1\<close> with silent vocals and silent model
  estimates gives stems \<open>bass = 0\<close>, \<open>drums = 0\<close>, \<open>other = 1/3\<close>, which sum to \<open>1/3\<close>.
\<close>

theorem stem_closure_counterexample:
  "map_option stem_total (separate_stems [1] [0] [0] [0] [0]) = Some (Some [1 / 3]) \<and>
   map_option stem_total (separate_stems [1] [0] [0] [0] [0]) \<noteq> Some (Some [1])"
  by (simp add: separate_stems_def residual_refinement_def final_correction_def stem_total_def
      Let_def arr_sub_def arr_add_def arr_scale_def np_clip_def)

section \<open>Weighted averages stay between the backends\<close>

lemma quotient_between:
  fixes S W lo hi :: real
  assumes "0 < W" and "lo * W \<le> S" and "S \<le> hi * W"
  shows "lo \<le> S / W \<and> S / W \<le> hi"
  using assms by (simp add: field_simps)

lemma vocals_blend2_hull:
  assumes w: "0 < w0" "0 < w1" and len: "length vocals3 = n" "length vocals4 = n" and j: "j < n"
  shows "\<exists>y. vocals_blend2 w0 w1 vocals3 vocals4 ! j = Some y \<and>
     min (vocals3 ! j) (vocals4 ! j) \<le> y \<and> y \<le> max (vocals3 ! j) (vocals4 ! j)"
proof -
  let ?a = "vocals3 ! j" and ?b = "vocals4 ! j"
  let ?S = "w0 * ?a + w1 * ?b"
  have val: "vocals_blend2 w0 w1 vocals3 vocals4 ! j = Some (?S / (w0 + w1))"
    using w len j
    by (simp add: vocals_blend2_def Let_def arr_div_nth arr_add_nth arr_scale_nth
        length_arr_add length_arr_scale)
  have lo: "min ?a ?b * (w0 + w1) \<le> ?S"
  proof -
    have "w0 * min ?a ?b \<le> w0 * ?a" "w1 * min ?a ?b \<le> w1 * ?b"
      using w by (simp_all add: mult_left_mono)
    then show ?thesis by (simp add: algebra_simps)
  qed
  have hi: "?S \<le> max ?a ?b * (w0 + w1)"
  proof -
    have "w0 * ?a \<le> w0 * max ?a ?b" "w1 * ?b \<le> w1 * max ?a ?b"
      using w by (simp_all add: mult_left_mono)
    then show ?thesis by (simp add: algebra_simps)
  qed
  have "0 < w0 + w1" using w by simp
  from quotient_between [OF this lo hi] val show ?thesis by simp
qed

lemma vocals_blend3_hull:
  assumes w: "0 < w0" "0 < w1" "0 < w2"
    and len: "length vocals_mdxb1 = n" "length vocals3 = n" "length vocals4 = n" and j: "j < n"
  shows "\<exists>y. vocals_blend3 w0 w1 w2 vocals_mdxb1 vocals3 vocals4 ! j = Some y \<and>
     min (vocals_mdxb1 ! j) (min (vocals3 ! j) (vocals4 ! j)) \<le> y \<and>
     y \<le> max (vocals_mdxb1 ! j) (max (vocals3 ! j) (vocals4 ! j))"
proof -
  let ?a = "vocals_mdxb1 ! j" and ?b = "vocals3 ! j" and ?c = "vocals4 ! j"
  let ?S = "w0 * ?a + w1 * ?b + w2 * ?c"
  let ?lo = "min ?a (min ?b ?c)" and ?hi = "max ?a (max ?b ?c)"
  have val: "vocals_blend3 w0 w1 w2 vocals_mdxb1 vocals3 vocals4 ! j = Some (?S / (w0 + w1 + w2))"
    using w len j
    by (simp add: vocals_blend3_def Let_def arr_div_nth arr_add_nth arr_scale_nth
        length_arr_add length_arr_scale)
  have lo: "?lo * (w0 + w1 + w2) \<le> ?S"
  proof -
    have "w0 * ?lo \<le> w0 * ?a" "w1 * ?lo \<le> w1 * ?b" "w2 * ?lo \<le> w2 * ?c"
      using w by (simp_all add: mult_left_mono)
    then show ?thesis by (simp add: algebra_simps)
  qed
  have hi: "?S \<le> ?hi * (w0 + w1 + w2)"
  proof -
    have "w0 * ?a \<le> w0 * ?hi" "w1 * ?b \<le> w1 * ?hi" "w2 * ?c \<le> w2 * ?hi"
      using w by (simp_all add: mult_left_mono)
    then show ?thesis by (simp add: algebra_simps)
  qed
  have "0 < w0 + w1 + w2" using w by simp
  from quotient_between [OF this lo hi] val show ?thesis by simp
qed

lemma stem_ensemble_hull:
  assumes w: "length weights = 4" "\<forall>w\<in>set weights. 0 < w"
    and len: "length outs = 4" "\<forall>a\<in>set outs. length a = n" and j: "j < n"
  shows "\<exists>y. stem_ensemble weights outs ! j = Some y \<and>
     Min ((\<lambda>a. a ! j) ` set outs) \<le> y \<and> y \<le> Max ((\<lambda>a. a ! j) ` set outs)"
proof -
  obtain w0 w1 w2 w3 where ws: "weights = [w0, w1, w2, w3]"
    using w(1) by (auto simp add: length_Suc_conv eval_nat_numeral)
  obtain a0 a1 a2 a3 where os: "outs = [a0, a1, a2, a3]"
    using len(1) by (auto simp add: length_Suc_conv eval_nat_numeral)
  have pos: "0 < w0" "0 < w1" "0 < w2" "0 < w3" using w(2) ws by simp_all
  have ls: "length a0 = n" "length a1 = n" "length a2 = n" "length a3 = n"
    using len(2) os by simp_all
  let ?S = "w0 * a0 ! j + w1 * a1 ! j + w2 * a2 ! j + w3 * a3 ! j"
  let ?lo = "Min ((\<lambda>a. a ! j) ` set outs)" and ?hi = "Max ((\<lambda>a. a ! j) ` set outs)"
  have upt4: "[0..<4] = [0, 1, 2, 3]" by (simp add: upt_rec)
  have val: "stem_ensemble weights outs ! j = Some (?S / (w0 + w1 + w2 + w3))"
    using pos ls j
    by (simp add: stem_ensemble_def ws os upt4 arr_div_nth arr_add_nth arr_scale_nth
        length_arr_add length_arr_scale)
  have lo_le: "?lo \<le> a0 ! j" "?lo \<le> a1 ! j" "?lo \<le> a2 ! j" "?lo \<le> a3 ! j"
    by (simp_all add: os)
  have hi_ge: "a0 ! j \<le> ?hi" "a1 ! j \<le> ?hi" "a2 ! j \<le> ?hi" "a3 ! j \<le> ?hi"
    by (simp_all add: os)
  have lo: "?lo * (w0 + w1 + w2 + w3) \<le> ?S"
  proof -
    have "w0 * ?lo \<le> w0 * a0 ! j" "w1 * ?lo \<le> w1 * a1 ! j"
      "w2 * ?lo \<le> w2 * a2 ! j" "w3 * ?lo \<le> w3 * a3 ! j"
      using pos lo_le by (simp_all add: mult_left_mono)
    then show ?thesis by (simp add: algebra_simps)
  qed
  have hi: "?S \<le> ?hi * (w0 + w1 + w2 + w3)"
  proof -
    have "w0 * a0 ! j \<le> w0 * ?hi" "w1 * a1 ! j \<le> w1 * ?hi"
      "w2 * a2 ! j \<le> w2 * ?hi" "w3 * a3 ! j \<le> w3 * ?hi"
      using pos hi_ge by (simp_all add: mult_left_mono)
    then show ?thesis by (simp add: algebra_simps)
  qed
  have "0 < w0 + w1 + w2 + w3" using pos by simp
  from quotient_between [OF this lo hi] val show ?thesis by simp
qed

text \<open>
  C8. Weighted-average convexity: for strictly positive weights and estimates of one
  shape, every sample of a weighted combination \<open>(\<Sum> w\<^sub>i * x\<^sub>i) / (\<Sum> w\<^sub>i)\<close> of
  \<^verbatim>\<open>separate_music_file\<close> (the two- and three-backend vocal blends and the four-model
  stem average) is a finite number between the least and the greatest of the backends'
  samples at that position.
\<close>

theorem weighted_average_within_hull:
  "(0 < w0 \<and> 0 < w1 \<and> length vocals3 = n \<and> length vocals4 = n \<and> j < n \<longrightarrow>
      (\<exists>y. vocals_blend2 w0 w1 vocals3 vocals4 ! j = Some y \<and>
         min (vocals3 ! j) (vocals4 ! j) \<le> y \<and> y \<le> max (vocals3 ! j) (vocals4 ! j))) \<and>
   (0 < v0 \<and> 0 < v1 \<and> 0 < v2 \<and> length vocals_mdxb1 = n \<and> length vocals3 = n \<and>
    length vocals4 = n \<and> j < n \<longrightarrow>
      (\<exists>y. vocals_blend3 v0 v1 v2 vocals_mdxb1 vocals3 vocals4 ! j = Some y \<and>
         min (vocals_mdxb1 ! j) (min (vocals3 ! j) (vocals4 ! j)) \<le> y \<and>
         y \<le> max (vocals_mdxb1 ! j) (max (vocals3 ! j) (vocals4 ! j)))) \<and>
   (length weights = 4 \<and> (\<forall>w\<in>set weights. 0 < w) \<and> length outs = 4 \<and>
    (\<forall>a\<in>set outs. length a = n) \<and> j < n \<longrightarrow>
      (\<exists>y. stem_ensemble weights outs ! j = Some y \<and>
         Min ((\<lambda>a. a ! j) ` set outs) \<le> y \<and> y \<le> Max ((\<lambda>a. a ! j) ` set outs)))"
  using vocals_blend2_hull [of w0 w1 vocals3 n vocals4 j]
    vocals_blend3_hull [of v0 v1 v2 vocals_mdxb1 n vocals3 vocals4 j]
    stem_ensemble_hull [of weights outs n j]
  by blast

theorem weighted_average_within_hull_witness:
  "(0::real) < 8 \<and> (0::real) < 5 \<and> (0::real) < 1 \<and>
   length [1, 3::real] = 2 \<and> length [2, 0::real] = 2 \<and> length [4, 4::real] = 2 \<and> (1::nat) < 2 \<and>
   length weights_drums = 4 \<and> list_all (\<lambda>w. 0 < w) weights_drums \<and>
   length [[1, 3], [2, 0], [4, 4], [0, 1::real]] = 4 \<and>
   list_all (\<lambda>a. length a = 2) [[1, 3], [2, 0], [4, 4], [0, 1::real]] \<and>
   (\<exists>y. vocals_blend2 8 5 [1, 3] [2, 0] ! 1 = Some y \<and> 0 \<le> y \<and> y \<le> 3) \<and>
   (\<exists>y. vocals_blend3 1 8 5 [4, 4] [1, 3] [2, 0] ! 1 = Some y \<and> 0 \<le> y \<and> y \<le> 4) \<and>
   (\<exists>y. stem_ensemble weights_drums [[1, 3], [2, 0], [4, 4], [0, 1]] ! 1 = Some y \<and>
        0 \<le> y \<and> y \<le> 4)"
  using weighted_average_within_hull [of 8 5 "[1, 3]" 2 "[2, 0]" 1 1 8 5 "[4, 4]" weights_drums
      "[[1, 3], [2, 0], [4, 4], [0, 1]]"]
  by (simp add: weights_drums_def)

section \<open>A single shift\<close>

lemma shift_list_single: "bigshifts \<le> 1 \<Longrightarrow> shift_list n bigshifts = [0]"
proof -
  assume "bigshifts \<le> 1"
  then have "effective_bigshifts bigshifts = 1"
    by (cases "bigshifts \<le> 0") (simp_all add: effective_bigshifts_def)
  then show ?thesis by (simp add: shift_list_def)
qed

lemma np_mean_single: "np_mean [r] = r"
  by (simp add: option.map_ident)

lemma demix_wrapper_single:
  "bigshifts \<le> 1 \<Longrightarrow> demix_wrapper mix m infer_session overlap bigshifts =
     map_sum id (map (oframe_scale 1.021)) (demix mix m infer_session overlap)"
  by (cases "demix mix m infer_session overlap")
    (simp_all add: demix_wrapper_def shift_list_single shifted_mix_zero restored_sources_zero
      np_mean_single del: np_mean.simps)

lemma demix_full_mdx23c_single:
  "BigShifts \<le> 1 \<Longrightarrow> demix_full_mdx23c BigShifts base mix = map (oframe_scale 1.0005168) (base mix)"
  by (simp add: demix_full_mdx23c_def shift_list_single shifted_mix_zero restored_sources_zero
      np_mean_single del: np_mean.simps)

lemma demix_full_vitlarge_single:
  "BigShifts \<le> 1 \<Longrightarrow> demix_full_vitlarge BigShifts base mix =
     (map (oframe_scale 1.002) (fst (base mix)), snd (base mix))"
  by (simp add: demix_full_vitlarge_def shift_list_single shifted_mix_zero restored_sources_zero
      np_mean_single del: np_mean.simps)

text \<open>
  C5, as the code has it. For a shift count of \<open>1\<close> (any configured value of at most
  \<open>1\<close>, values of at most \<open>0\<close> being treated as \<open>1\<close>) an ensembler makes one call of its
  inner transform on the unrotated input and returns that call's value multiplied by the
  ensembler's volume compensation: \<open>1.021\<close> in \<^verbatim>\<open>demix_wrapper\<close> (an exception of
  \<^verbatim>\<open>demix\<close> is passed on), \<open>1.0005168\<close> in \<^verbatim>\<open>demix_full_mdx23c\<close>, \<open>1.002\<close> on the
  vocals of \<^verbatim>\<open>demix_full_vitlarge\<close>, whose second result is returned unscaled.
\<close>

theorem single_shift_is_scaled_inner_call:
  "(bigshifts \<le> 1 \<longrightarrow>
      demix_wrapper mix m infer_session overlap bigshifts =
        map_sum id (map (oframe_scale 1.021)) (demix mix m infer_session overlap)) \<and>
   (BigShifts \<le> 1 \<longrightarrow>
      demix_full_mdx23c BigShifts demix_base_mdxv3 mix' =
        map (oframe_scale 1.0005168) (demix_base_mdxv3 mix') \<and>
      demix_full_vitlarge BigShifts demix_vitlarge mix' =
        (map (oframe_scale 1.002) (fst (demix_vitlarge mix')), snd (demix_vitlarge mix')))"
  by (simp add: demix_wrapper_single demix_full_mdx23c_single demix_full_vitlarge_single)

theorem single_shift_is_scaled_inner_call_witness:
  "(1::int) \<le> 1 \<and> (0::int) \<le> 1 \<and>
   demix_wrapper [] unit_spectrum_model increment_session 0 1 =
     map_sum id (map (oframe_scale 1.021)) (demix [] unit_spectrum_model increment_session 0) \<and>
   demix_full_mdx23c 0 finite_frames [(1, 1), (2, 2)]
     = [(Some 1.0005168, Some 1.0005168), (Some 2.0010336, Some 2.0010336)] \<and>
   demix_full_vitlarge 1 (\<lambda>w. (finite_frames w, finite_frames w)) [(1, 1)]
     = ([(Some 1.002, Some 1.002)], [(Some 1, Some 1)])"
  using single_shift_is_scaled_inner_call
      [of 1 "[]" unit_spectrum_model increment_session 0 0 finite_frames "[(1, 1), (2, 2)]"
        "\<lambda>w. (finite_frames w, finite_frames w)"]
    single_shift_is_scaled_inner_call
      [of 1 "[]" unit_spectrum_model increment_session 0 1 finite_frames "[(1, 1)]"
        "\<lambda>w. (finite_frames w, finite_frames w)"]
  by (simp add: finite_frames_def oframe_scale_def)

text \<open>
  The value of the inner transform itself is not what C5's ensemblers return: with one
  shift and an inner transform that returns the one-sample input \<open>(1, 1)\<close>,
  \<^verbatim>\<open>demix_full_mdx23c\<close> returns \<open>(1.0005168, 1.0005168)\<close>.
\<close>

theorem single_shift_unscaled_counterexample:
  "demix_full_mdx23c 1 finite_frames [(1, 1)] = [(Some 1.0005168, Some 1.0005168)] \<and>
   finite_frames [(1, 1)] = [(Some 1, Some 1)] \<and>
   demix_full_mdx23c 1 finite_frames [(1, 1)] \<noteq> finite_frames [(1, 1)]"
  by (simp add: demix_full_mdx23c_def shift_list_def effective_bigshifts_def shifted_mix_def
      restored_sources_def slice_from_def slice_to_def norm_idx_def finite_frames_def
      oframe_scale_def)

section \<open>Zeroing of the low frequency bins\<close>

lemma zero_low_bins_nth:
  assumes "b < length s" and "c < length (s ! b)" and "f < length (s ! b ! c)"
    and "t < length (s ! b ! c ! f)"
  shows "zero_low_bins s ! b ! c ! f ! t = (if f < 3 then 0 else s ! b ! c ! f ! t)"
  using assms
  by (auto simp add: zero_low_bins_def slice_to_def slice_from_def norm_idx_def nth_append min_def)

text \<open>
  C9, as the code has it. For every chunk, the three lowest frequency bins (indices
  \<open>0\<close>, \<open>1\<close> and \<open>2\<close>, the DC bin among them) of the chunk's STFT are set to zero and
  the other bins are left as they are; this is done before the network runs, on the
  network's input. The network's output is handed to the inverse transform unchanged.
\<close>

theorem low_bins_zeroed_before_network:
  "model_output m infer_session mix_wave = infer_session (zero_low_bins (stft m mix_wave)) \<and>
   infer_chunk m infer_session mix_wave = istft m (model_output m infer_session mix_wave) \<and>
   (b < length s \<and> c < length (s ! b) \<and> f < length (s ! b ! c) \<and> t < length (s ! b ! c ! f) \<longrightarrow>
      zero_low_bins s ! b ! c ! f ! t = (if f < 3 then 0 else s ! b ! c ! f ! t))"
  by (simp add: model_output_def infer_chunk_def zero_low_bins_nth)

theorem low_bins_zeroed_before_network_witness:
  "(0::nat) < length [[[[1], [1], [1], [1::real]]]] \<and>
   zero_low_bins [[[[1], [1], [1], [1]]]] ! 0 ! 0 ! 2 ! 0 = 0 \<and>
   zero_low_bins [[[[1], [1], [1], [1]]]] ! 0 ! 0 ! 3 ! 0 = 1 \<and>
   zero_low_bins [[[[1], [1], [1], [1]]]] = [[[[0], [0], [0], [1]]]]"
  using low_bins_zeroed_before_network
      [of unit_spectrum_model increment_session "[]" 0 "[[[[1], [1], [1], [1]]]]" 0 2 0]
    low_bins_zeroed_before_network
      [of unit_spectrum_model increment_session "[]" 0 "[[[[1], [1], [1], [1]]]]" 0 3 0]
  by (simp add: zero_low_bins_def slice_to_def slice_from_def norm_idx_def)

text \<open>
  The spectrum that reaches the inverse transform need not have zero low bins, as C9
  words it: for an STFT of ones and a network that adds \<open>1\<close> to every entry, the
  inverse transform receives \<open>1\<close> in bins \<open>0\<close> to \<open>2\<close> (and \<open>2\<close> in bin \<open>3\<close>).
\<close>

theorem low_bins_at_inverse_transform_counterexample:
  "model_output unit_spectrum_model increment_session [] = [[[[1], [1], [1], [2]]]] \<and>
   model_output unit_spectrum_model increment_session [] ! 0 ! 0 ! 0 ! 0 \<noteq> 0"
  by (simp add: model_output_def unit_spectrum_model_def unit_spectrum_stft_def
      increment_session_def zero_low_bins_def slice_to_def slice_from_def norm_idx_def)

section \<open>Validation of the input files\<close>

lemma first_missing_None: "first_missing isfile ps = None \<longleftrightarrow> (\<forall>p\<in>set ps. isfile p)"
  by (induction ps) auto

lemma first_missing_Some:
  "first_missing isfile ps = Some p \<Longrightarrow>
     \<exists>pre post. ps = pre @ p # post \<and> (\<forall>q\<in>set pre. isfile q) \<and> \<not> isfile p"
proof (induction ps)
  case Nil
  then show ?case by simp
next
  case (Cons a ps)
  show ?case
  proof (cases "isfile a")
    case True
    with Cons.prems have "first_missing isfile ps = Some p" by simp
    from Cons.IH [OF this] obtain pre post where
      "ps = pre @ p # post" "\<forall>q\<in>set pre. isfile q" "\<not> isfile p" by blast
    with True have "a # ps = (a # pre) @ p # post \<and> (\<forall>q\<in>set (a # pre). isfile q) \<and> \<not> isfile p"
      by simp
    then show ?thesis by blast
  next
    case False
    with Cons.prems have "p = a" by simp
    with False have "a # ps = [] @ p # ps \<and> (\<forall>q\<in>set []. isfile q) \<and> \<not> isfile p" by simp
    then show ?thesis by blast
  qed
qed

lemma process_files_paths:
  "snd (process_files opts total_steps step ps) = concat (map (written_paths opts) ps)"
  by (induction ps arbitrary: step) (simp_all add: Let_def)

text \<open>
  C6, as the code has it. All input paths are checked before anything else is done. If
  some path does not name an existing file, the error for the first such path is
  printed and \<^verbatim>\<open>predict_with_model\<close> returns at once: the entry point returns \<open>None\<close>
  and no file of the batch is loaded, separated or written. If every path names a
  file, the entry point returns the paths written for the inputs, in order.
\<close>

theorem missing_file_ends_batch:
  "((\<exists>p\<in>set (input_audio opts). \<not> isfile p) \<longrightarrow>
      separate_music isfile opts = None \<and>
      (\<exists>pre p post. input_audio opts = pre @ p # post \<and> (\<forall>q\<in>set pre. isfile q) \<and> \<not> isfile p \<and>
         events (predict_with_model isfile opts) =
           [Print (''Error. No such file: '' @ p @ ''. Please check path!'')])) \<and>
   ((\<forall>p\<in>set (input_audio opts). isfile p) \<longrightarrow>
      separate_music isfile opts = Some (concat (map (written_paths opts) (input_audio opts))))"
proof (intro conjI impI)
  assume miss: "\<exists>p\<in>set (input_audio opts). \<not> isfile p"
  then have "first_missing isfile (input_audio opts) \<noteq> None"
    by (simp add: first_missing_None)
  then obtain p where p: "first_missing isfile (input_audio opts) = Some p" by auto
  from p show "separate_music isfile opts = None"
    by (simp add: separate_music_def predict_with_model_def)
  from first_missing_Some [OF p] obtain pre post where
    "input_audio opts = pre @ p # post" "\<forall>q\<in>set pre. isfile q" "\<not> isfile p" by blast
  moreover from p have "events (predict_with_model isfile opts) =
      [Print (''Error. No such file: '' @ p @ ''. Please check path!'')]"
    by (simp add: predict_with_model_def)
  ultimately show "\<exists>pre p post. input_audio opts = pre @ p # post \<and> (\<forall>q\<in>set pre. isfile q) \<and>
      \<not> isfile p \<and> events (predict_with_model isfile opts) =
        [Print (''Error. No such file: '' @ p @ ''. Please check path!'')]"
    by blast
next
  assume "\<forall>p\<in>set (input_audio opts). isfile p"
  then have "first_missing isfile (input_audio opts) = None"
    by (simp add: first_missing_None)
  then show "separate_music isfile opts = Some (concat (map (written_paths opts) (input_audio opts)))"
    by (simp add: separate_music_def predict_with_model_def Let_def process_files_paths)
qed

lemma written_paths_a: "written_paths two_files ''a.wav'' = [''out/a_vocals.wav'', ''out/a_instrum.wav'']"
  by (simp add: written_paths_def out_path_def instruments_def two_files_def basename_def
      splitext_root_def path_join_def)

text \<open>
  The batch does not continue past a missing file, as C6 has it: for the inputs
  \<open>a.wav\<close> (present) and \<open>missing.wav\<close> (absent) the entry point returns \<open>None\<close>, not
  the two paths of \<open>a.wav\<close>, and the only event is the printed error.
\<close>

theorem missing_file_continuation_counterexample:
  "separate_music only_a_exists two_files = None \<and>
   events (predict_with_model only_a_exists two_files) =
     [Print ''Error. No such file: missing.wav. Please check path!''] \<and>
   written_paths two_files ''a.wav'' = [''out/a_vocals.wav'', ''out/a_instrum.wav''] \<and>
   separate_music only_a_exists two_files \<noteq> Some (written_paths two_files ''a.wav'')"
  by (simp add: separate_music_def predict_with_model_def two_files_def only_a_exists_def written_paths_a [unfolded two_files_def])

theorem missing_file_ends_batch_witness:
  "\<not> only_a_exists ''missing.wav'' \<and> ''missing.wav'' \<in> set (input_audio two_files) \<and>
   separate_music only_a_exists two_files = None \<and>
   only_a_exists ''a.wav'' \<and>
   separate_music only_a_exists (two_files\<lparr>input_audio := [''a.wav'']\<rparr>)
     = Some [''out/a_vocals.wav'', ''out/a_instrum.wav'']"
  using missing_file_ends_batch [of two_files only_a_exists]
    missing_file_ends_batch [of "two_files\<lparr>input_audio := [''a.wav'']\<rparr>" only_a_exists]
  by (simp add: two_files_def only_a_exists_def written_paths_def out_path_def instruments_def
      basename_def splitext_root_def path_join_def)

section \<open>The window\<close>

lemma length_hanning: "length (hanning M) = M"
  by (simp add: hanning_def)

lemma cos_gt_minus_one:
  fixes x :: real
  assumes "- pi < x" and "x < pi"
  shows "- 1 < cos x"
proof -
  have "0 \<le> \<bar>x\<bar>" "\<bar>x\<bar> < pi" using assms by auto
  then have "cos pi < cos \<bar>x\<bar>"
    by (intro cos_monotone_0_pi) auto
  then show ?thesis by (simp add: cos_abs_real)
qed

lemma hanning_nonneg: "q < M \<Longrightarrow> 0 \<le> hanning M ! q"
proof -
  assume q: "q < M"
  have "- 1 \<le> cos (pi * (1 - real M + 2 * real q) / (real M - 1))"
    by (rule cos_ge_minus_one)
  then have "0 \<le> 1 / 2 + cos (pi * (1 - real M + 2 * real q) / (real M - 1)) / 2"
    by linarith
  then show ?thesis using q by (auto simp add: hanning_def)
qed

lemma hanning_first: "2 \<le> M \<Longrightarrow> hanning M ! 0 = 0"
proof -
  assume M: "2 \<le> M"
  then have "(1 - real M) / (real M - 1) = - 1"
    by (simp add: field_simps)
  then have "pi * (1 - real M) / (real M - 1) = - pi"
    by (metis mult.commute mult_minus1 times_divide_eq_right)
  then show ?thesis using M by (simp add: hanning_def)
qed

lemma hanning_last: "2 \<le> M \<Longrightarrow> hanning M ! (M - 1) = 0"
proof -
  assume M: "2 \<le> M"
  then have "1 - real M + 2 * real (M - 1) = real M - 1"
    by (simp add: of_nat_diff)
  then have "pi * (1 - real M + 2 * real (M - 1)) / (real M - 1) = pi"
    using M by simp
  then show ?thesis using M by (simp add: hanning_def)
qed

lemma hanning_inside: 
  assumes "0 < q" and "q + 1 < M"
  shows "0 < hanning M ! q"
proof -
  let ?d = "real M - 1"
  let ?x = "pi * (1 - real M + 2 * real q) / ?d"
  have d: "0 < ?d" using assms by simp
  have "- ?d < 1 - real M + 2 * real q" "1 - real M + 2 * real q < ?d"
    using assms by simp_all
  then have "- 1 < (1 - real M + 2 * real q) / ?d" "(1 - real M + 2 * real q) / ?d < 1"
    using d by (simp_all add: field_simps)
  then have "pi * (- 1) < pi * ((1 - real M + 2 * real q) / ?d)"
    "pi * ((1 - real M + 2 * real q) / ?d) < pi * 1"
    by (simp_all only: mult_strict_left_mono pi_gt_zero)
  then have "- pi < ?x" "?x < pi" by simp_all
  then have "- 1 < cos ?x" by (rule cos_gt_minus_one)
  then show ?thesis using assms by (simp add: hanning_def)
qed

lemma sum_list_pos_member:
  fixes f :: "'a \<Rightarrow> real"
  assumes "\<forall>x\<in>set xs. 0 \<le> f x" and "y \<in> set xs" and "0 < f y"
  shows "0 < sum_list (map f xs)"
  using assms
proof (induction xs)
  case Nil
  then show ?case by simp
next
  case (Cons a xs)
  have nn: "0 \<le> sum_list (map f xs)"
    using Cons.prems(1) by (intro sum_list_nonneg) auto
  show ?case
  proof (cases "y = a")
    case True
    then show ?thesis using nn Cons.prems(3) by simp
  next
    case False
    then have "0 < sum_list (map f xs)" using Cons by simp
    moreover have "0 \<le> f a" using Cons.prems(1) by simp
    ultimately show ?thesis by simp
  qed
qed

lemma length_slice_sum:
  "start \<le> stop \<Longrightarrow> stop \<le> length acc \<Longrightarrow> length vals = stop - start \<Longrightarrow>
   length (slice_sum start stop vals acc) = length acc"
  by (simp add: slice_sum_def)

lemma slice_sum_nth:
  assumes "start \<le> stop" and "stop \<le> length acc" and "length vals = stop - start"
    and "p < length acc"
  shows "slice_sum start stop vals acc ! p =
     (if start \<le> p \<and> p < stop then frame_add (acc ! p) (vals ! (p - start)) else acc ! p)"
  using assms by (auto simp add: slice_sum_def nth_append min_def)

section \<open>The stride in double precision\<close>

lemma round_half_even_of_int: "round_half_even (of_int z) = z"
  by (simp add: round_half_even_def)

lemma float64_exactI:
  assumes "0 < x" and "2 powr of_int k \<le> x" and "x < 2 powr (of_int k + 1)"
    and "x = of_int z * 2 powr of_int (k - 52)"
  shows "float64 x = x"
proof -
  have e: "\<lfloor>log 2 \<bar>x\<bar>\<rfloor> = k"
    using assms(1-3) by (simp add: floor_log_eq_powr_iff)
  have u: "0 < (2::real) powr of_int (k - 52)" by simp
  have "x / 2 powr of_int (k - 52) = of_int z"
    using assms(4) u by (simp add: field_simps)
  then have "float64 x = of_int z * 2 powr of_int (k - 52)"
    using assms(1) e by (simp add: float64_def Let_def round_half_even_of_int)
  then show ?thesis using assms(4) by simp
qed

lemma float64_one: "float64 1 = 1"
  by (rule float64_exactI [where k = 0 and z = 4503599627370496]) (simp_all add: powr_minus)

lemma float64_chunk: "float64 261120 = 261120"
  by (rule float64_exactI [where k = 17 and z = 8972014882652160]) (simp_all add: powr_minus)

lemma float64_three_quarters: "float64 (3 / 4) = 3 / 4"
  by (rule float64_exactI [where k = "- 1" and z = 6755399441055744]) (simp_all add: powr_minus)

lemma float64_195840: "float64 195840 = 195840"
  by (rule float64_exactI [where k = 17 and z = 6729011161989120]) (simp_all add: powr_minus)

lemma float64_near_one: "float64 (1048575 / 1048576) = 1048575 / 1048576"
  by (rule float64_exactI [where k = "- 1" and z = 9007190664806400]) (simp_all add: powr_minus)

lemma float64_seam: "float64 (267386625 / 1024) = 267386625 / 1024"
  by (rule float64_exactI [where k = 17 and z = 8972006326272000]) (simp_all add: powr_minus)

lemma demix_step_zero: "demix_step 0 261120 = Inr 261120"
  by (simp add: demix_step_def Let_def float64_one float64_chunk py_int_def)

lemma demix_step_quarter: "demix_step (1 / 4) 261120 = Inr 195840"
  by (simp add: demix_step_def Let_def float64_three_quarters float64_chunk float64_195840
      py_int_def)

lemma demix_step_tiny: "demix_step (1 / 1048576) 261120 = Inr 261119"
proof -
  have "\<lfloor>(267386625::real) / 1024\<rfloor> = 261119" by (simp add: floor_eq_iff)
  then show ?thesis
    by (simp add: demix_step_def Let_def float64_near_one float64_chunk float64_seam py_int_def)
qed

text \<open>
  Without a window the stride is the chunk size, for every chunk size that a double
  holds exactly.
\<close>

lemma float64_of_nat:
  assumes "0 < n" and "n < 2 ^ 53"
  shows "float64 (real n) = real n"
proof -
  define k where "k = \<lfloor>log 2 (real n)\<rfloor>"
  have x: "0 < real n" using assms(1) by simp
  have "\<lfloor>log 2 (real n)\<rfloor> = k" by (simp add: k_def)
  then have b: "2 powr of_int k \<le> real n \<and> real n < 2 powr (of_int k + 1)"
    using x by (simp add: floor_log_eq_powr_iff)
  have "real n < real (2 ^ 53)" using assms(2) by (simp only: of_nat_less_iff)
  also have "real (2 ^ 53) = 2 powr 53" by simp
  finally have "real n < (2::real) powr 53" .
  then have "(2::real) powr of_int k < 2 powr 53" using b by linarith
  then have "real_of_int k < 53" by (rule powr_less_cancel) simp
  then have k52: "k \<le> 52" by linarith
  define d where "d = nat (52 - k)"
  define z where "z = int n * 2 ^ d"
  have "(2::real) powr of_int (k - 52) = 1 / 2 ^ d"
  proof -
    have "real_of_int (k - 52) = - real d" using k52 by (simp add: d_def)
    then have "(2::real) powr of_int (k - 52) = 2 powr (- real d)" by (simp only:)
    also have "\<dots> = 1 / 2 powr real d" by (simp only: powr_minus divide_inverse mult_1)
    also have "\<dots> = 1 / 2 ^ d" by (simp only: powr_realpow zero_less_numeral)
    finally show ?thesis .
  qed
  then have e: "real n = of_int z * 2 powr of_int (k - 52)"
    by (simp add: z_def)
  from x b [THEN conjunct1] b [THEN conjunct2] e show ?thesis
    by (rule float64_exactI)
qed

lemma demix_step_plain:
  assumes "0 < cs" and "cs < 2 ^ 53"
  shows "demix_step 0 cs = Inr (int cs)"
proof -
  have c: "float64 (real cs) = real cs" using assms by (rule float64_of_nat)
  have "real cs < real (2 ^ 53)" using assms(2) by (simp only: of_nat_less_iff)
  then have "real cs < 2 ^ 53" by simp
  moreover have "(2::real) ^ 53 < 2 ^ 1024" by simp
  ultimately have s: "\<not> 2 ^ 1024 \<le> \<bar>real cs\<bar>" by linarith
  have p: "py_int (real cs) = int cs" by (simp add: py_int_def)
  have "demix_step 0 cs = (if 2 ^ 1024 \<le> \<bar>real cs\<bar> \<or> 2 ^ 1024 \<le> \<bar>real cs\<bar>
         then Inl OverflowError else Inr (py_int (real cs)))"
    by (simp only: demix_step_def Let_def diff_zero float64_one mult_1 c)
  then show ?thesis using s p by (simp only: simp_thms if_False)
qed

text \<open>
  With a window the rounding of the product decides. The double
  \<open>4521260802379793 / 2^70\<close> is greater than \<open>1 / 261120\<close>, so that
  \<open>(1 - overlap) * 261120\<close> is below \<open>261119\<close> over the reals and its integer part
  is \<open>261118\<close>; in double precision the product is \<open>261119\<close>, one less than the
  chunk size.
\<close>

lemma float64_evalI:
  assumes "0 < x" and "2 powr of_int k \<le> x" and "x < 2 powr (of_int k + 1)"
    and "round_half_even (x / 2 powr of_int (k - 52)) = z"
  shows "float64 x = of_int z * 2 powr of_int (k - 52)"
proof -
  have e: "\<lfloor>log 2 \<bar>x\<bar>\<rfloor> = k"
    using assms(1-3) by (simp add: floor_log_eq_powr_iff)
  show ?thesis
    using assms(1,4) e by (simp add: float64_def Let_def)
qed

lemma float64_below_one:
  "float64 (1180587099456608923631 / 1180591620717411303424)
     = 1125895595032319 / 1125899906842624"
proof -
  have f: "\<lfloor>(1180587099456608923631::real) / 131072\<rfloor> = 9007164760258551"
    by (simp add: floor_eq_iff)
  have r: "round_half_even (1180587099456608923631 / 1180591620717411303424 / 2 powr of_int (- 1 - 52))
           = 9007164760258552"
    by (simp add: round_half_even_def Let_def powr_minus f)
  have "float64 (1180587099456608923631 / 1180591620717411303424)
        = of_int 9007164760258552 * 2 powr of_int (- 1 - 52)"
    by (rule float64_evalI [OF _ _ _ r]) (simp_all add: powr_minus)
  then show ?thesis by (simp add: powr_minus)
qed

lemma float64_product_rounds:
  "float64 (287103376733241345 / 1099511627776) = 261119"
proof -
  have f: "\<lfloor>(287103376733241345::real) / 32\<rfloor> = 8971980522913792"
    by (simp add: floor_eq_iff)
  have r: "round_half_even (287103376733241345 / 1099511627776 / 2 powr of_int (17 - 52))
           = 8971980522913792"
    by (simp add: round_half_even_def Let_def powr_minus f)
  have "float64 (287103376733241345 / 1099511627776)
        = of_int 8971980522913792 * 2 powr of_int (17 - 52)"
    by (rule float64_evalI [OF _ _ _ r]) (simp_all add: powr_minus)
  then show ?thesis by (simp add: powr_minus)
qed

lemma demix_step_rounded:
  "1 / 261120 < (4521260802379793::real) / 1180591620717411303424 \<and>
   \<lfloor>(1 - 4521260802379793 / 1180591620717411303424) * (261120::real)\<rfloor> = 261118 \<and>
   demix_step (4521260802379793 / 1180591620717411303424) 261120 = Inr 261119"
proof -
  have a: "demix_step (4521260802379793 / 1180591620717411303424) 261120 = Inr 261119"
    by (simp add: demix_step_def Let_def float64_below_one float64_chunk
        float64_product_rounds py_int_def)
  have b: "\<lfloor>(1 - 4521260802379793 / 1180591620717411303424) * (261120::real)\<rfloor> = 261118"
    by (simp add: floor_eq_iff)
  show ?thesis using a b by simp
qed

text \<open>
  The overlap \<open>0.8\<close> is the double \<open>3602879701896397 / 2^52\<close>; the
  product \<open>(1 - overlap) * 261120\<close> is rounded to a double just below \<open>52224\<close>, and
  the stride is \<open>52223\<close>.
\<close>

lemma float64_one_fifth:
  "float64 (900719925474099 / 4503599627370496) = 900719925474099 / 4503599627370496"
  by (rule float64_exactI [where k = "- 3" and z = 7205759403792792]) (simp_all add: powr_minus)

lemma float64_fifth_of_chunk:
  "float64 (229683580995895245 / 4398046511104) = 3588805953060863 / 68719476736"
proof -
  have f: "\<lfloor>(229683580995895245::real) / 32\<rfloor> = 7177611906121726"
    by (simp add: floor_eq_iff)
  have r: "round_half_even (229683580995895245 / 4398046511104 / 2 powr of_int (15 - 52))
           = 7177611906121726"
    by (simp add: round_half_even_def Let_def powr_minus f)
  have "float64 (229683580995895245 / 4398046511104)
        = of_int 7177611906121726 * 2 powr of_int (15 - 52)"
    by (rule float64_evalI [OF _ _ _ r]) (simp_all add: powr_minus)
  then show ?thesis by (simp add: powr_minus)
qed

lemma demix_step_four_fifths:
  "demix_step (3602879701896397 / 4503599627370496) 261120 = Inr 52223"
proof -
  have "\<lfloor>(3588805953060863::real) / 68719476736\<rfloor> = 52223" by (simp add: floor_eq_iff)
  then show ?thesis
    by (simp add: demix_step_def Let_def float64_one_fifth float64_chunk
        float64_fifth_of_chunk py_int_def)
qed

section \<open>One iteration of the chunk loop\<close>

lemma slice_between_nat:
  "a \<le> b \<Longrightarrow> b \<le> length xs \<Longrightarrow> slice_between xs (int a) (int b) = take (b - a) (drop a xs)"
  by (simp add: slice_between_def norm_idx_def min_def)

lemma chunk_values_divider_plain:
  "snd (chunk_values m sess 0 mixture i acc) =
     slice_sum i (min (i + chunk_size m) (length mixture))
       (replicate (min (i + chunk_size m) (length mixture) - i) (1, 1)) (snd acc)"
  by (simp only: chunk_values_def Let_def simp_thms if_True option.case snd_conv)

lemma chunk_values_divider_window:
  "overlap \<noteq> 0 \<Longrightarrow> snd (chunk_values m sess overlap mixture i acc) =
     slice_sum i (min (i + chunk_size m) (length mixture))
       (map (\<lambda>w. (w, w)) (hanning (min (i + chunk_size m) (length mixture) - i))) (snd acc)"
  by (simp only: chunk_values_def Let_def simp_thms if_False option.case snd_conv)

lemma chunk_divider_length:
  assumes "i < length mixture" and "length (snd acc) = length mixture"
  shows "length (snd (chunk_values m sess overlap mixture i acc)) = length mixture"
proof (cases "overlap = 0")
  case True
  show ?thesis
    unfolding True chunk_values_divider_plain using assms
    by (simp add: length_slice_sum)
next
  case False
  show ?thesis
    unfolding chunk_values_divider_window [OF False] using assms
    by (simp add: length_slice_sum length_hanning)
qed

lemma chunk_divider_nth:
  assumes "i < length mixture" and "length (snd acc) = length mixture" and "p < length mixture"
  shows "snd (chunk_values m sess overlap mixture i acc) ! p =
     frame_add (snd acc ! p)
       (chunk_weight overlap (chunk_size m) (length mixture) i p,
        chunk_weight overlap (chunk_size m) (length mixture) i p)"
proof -
  define stop where "stop = min (i + chunk_size m) (length mixture)"
  have le: "i \<le> stop" "stop \<le> length (snd acc)" using assms by (simp_all add: stop_def)
  have p: "p < length (snd acc)" using assms by simp
  show ?thesis
  proof (cases "overlap = 0")
    case True
    have "snd (chunk_values m sess overlap mixture i acc) =
        slice_sum i stop (replicate (stop - i) (1, 1)) (snd acc)"
      unfolding True chunk_values_divider_plain stop_def ..
    then show ?thesis
      using True slice_sum_nth [OF le _ p, of "replicate (stop - i) (1, 1)"]
      by (auto simp add: chunk_weight_def frame_add_def stop_def [symmetric])
  next
    case False
    have "snd (chunk_values m sess overlap mixture i acc) =
        slice_sum i stop (map (\<lambda>w. (w, w)) (hanning (stop - i))) (snd acc)"
      unfolding chunk_values_divider_window [OF False] stop_def ..
    then show ?thesis
      using False slice_sum_nth [OF le _ p, of "map (\<lambda>w. (w, w)) (hanning (stop - i))"]
      by (auto simp add: chunk_weight_def frame_add_def length_hanning stop_def [symmetric])
  qed
qed


lemma chunk_values_result_plain:
  "fst (chunk_values m sess 0 mixture i acc) =
     slice_sum i (min (i + chunk_size m) (length mixture))
       (take (min (i + chunk_size m) (length mixture) - i)
          (infer_chunk m sess
             (if min (i + chunk_size m) (length mixture) \<noteq> i + chunk_size m
              then slice_between mixture (int i) (int (min (i + chunk_size m) (length mixture)))
                   @ replicate (i + chunk_size m - min (i + chunk_size m) (length mixture)) (0, 0)
              else slice_between mixture (int i) (int (min (i + chunk_size m) (length mixture))))))
       (fst acc)"
  by (simp only: chunk_values_def Let_def simp_thms if_True option.case fst_conv)

lemma chunk_values_result_window:
  "overlap \<noteq> 0 \<Longrightarrow> fst (chunk_values m sess overlap mixture i acc) =
     slice_sum i (min (i + chunk_size m) (length mixture))
       (take (min (i + chunk_size m) (length mixture) - i)
          (map2 frame_mul
             (take (min (i + chunk_size m) (length mixture) - i)
               (infer_chunk m sess
                 (if min (i + chunk_size m) (length mixture) \<noteq> i + chunk_size m
                  then slice_between mixture (int i) (int (min (i + chunk_size m) (length mixture)))
                       @ replicate (i + chunk_size m - min (i + chunk_size m) (length mixture)) (0, 0)
                  else slice_between mixture (int i) (int (min (i + chunk_size m) (length mixture))))))
             (map (\<lambda>w. (w, w)) (hanning (min (i + chunk_size m) (length mixture) - i)))
           @ drop (min (i + chunk_size m) (length mixture) - i)
               (infer_chunk m sess
                 (if min (i + chunk_size m) (length mixture) \<noteq> i + chunk_size m
                  then slice_between mixture (int i) (int (min (i + chunk_size m) (length mixture)))
                       @ replicate (i + chunk_size m - min (i + chunk_size m) (length mixture)) (0, 0)
                  else slice_between mixture (int i) (int (min (i + chunk_size m) (length mixture)))))))
       (fst acc)"
  by (simp only: chunk_values_def Let_def simp_thms if_False option.case fst_conv)

lemma chunk_input:
  assumes "i < length mixture"
  shows "(if min (i + chunk_size m) (length mixture) \<noteq> i + chunk_size m
          then slice_between mixture (int i) (int (min (i + chunk_size m) (length mixture)))
               @ replicate (i + chunk_size m - min (i + chunk_size m) (length mixture)) (0, 0)
          else slice_between mixture (int i) (int (min (i + chunk_size m) (length mixture))))
         = take (min (i + chunk_size m) (length mixture) - i) (drop i mixture)
           @ replicate (i + chunk_size m - min (i + chunk_size m) (length mixture)) (0, 0)"
proof -
  define stop where "stop = min (i + chunk_size m) (length mixture)"
  have "i \<le> stop" "stop \<le> length mixture" using assms by (simp_all add: stop_def)
  then have sl: "slice_between mixture (int i) (int stop) = take (stop - i) (drop i mixture)"
    by (rule slice_between_nat)
  have "(if stop \<noteq> i + chunk_size m
         then slice_between mixture (int i) (int stop) @ replicate (i + chunk_size m - stop) (0, 0)
         else slice_between mixture (int i) (int stop))
        = take (stop - i) (drop i mixture) @ replicate (i + chunk_size m - stop) (0, 0)"
  proof (cases "stop = i + chunk_size m")
    case True
    then show ?thesis unfolding sl by simp
  next
    case False
    then show ?thesis unfolding sl by (simp only: if_True simp_thms)
  qed
  then show ?thesis by (simp only: stop_def)
qed

lemma chunk_input_length:
  assumes "i < length mixture"
  shows "length (take (min (i + chunk_size m) (length mixture) - i) (drop i mixture)
           @ replicate (i + chunk_size m - min (i + chunk_size m) (length mixture)) (0, 0))
         = chunk_size m"
  using assms by (auto simp add: min_def)

lemma chunk_result_plain_identity:
  assumes idt: "\<forall>c. length c = chunk_size m \<longrightarrow> infer_chunk m sess c = c"
    and i: "i < length mixture"
  shows "fst (chunk_values m sess 0 mixture i acc) =
     slice_sum i (min (i + chunk_size m) (length mixture))
       (take (min (i + chunk_size m) (length mixture) - i) (drop i mixture)) (fst acc)"
proof -
  define stop where "stop = min (i + chunk_size m) (length mixture)"
  define padded where
    "padded = take (stop - i) (drop i mixture) @ replicate (i + chunk_size m - stop) (0, 0)"
  have "length padded = chunk_size m"
    unfolding padded_def stop_def using i by (rule chunk_input_length)
  then have tw: "infer_chunk m sess padded = padded" using idt by blast
  have lp: "length (take (stop - i) (drop i mixture)) = stop - i"
    using i by (simp add: stop_def)
  have "take (stop - i) padded = take (stop - i) (drop i mixture)"
    unfolding padded_def using lp by simp
  then show ?thesis
    unfolding chunk_values_result_plain chunk_input [OF i]
    using tw by (simp only: stop_def padded_def)
qed

lemma chunk_result_window_identity:
  assumes idt: "\<forall>c. length c = chunk_size m \<longrightarrow> infer_chunk m sess c = c"
    and i: "i < length mixture" and ov: "overlap \<noteq> 0"
  shows "fst (chunk_values m sess overlap mixture i acc) =
     slice_sum i (min (i + chunk_size m) (length mixture))
       (map2 frame_mul (take (min (i + chunk_size m) (length mixture) - i) (drop i mixture))
          (map (\<lambda>w. (w, w)) (hanning (min (i + chunk_size m) (length mixture) - i))))
       (fst acc)"
proof -
  define stop where "stop = min (i + chunk_size m) (length mixture)"
  define padded where
    "padded = take (stop - i) (drop i mixture) @ replicate (i + chunk_size m - stop) (0, 0)"
  have "length padded = chunk_size m"
    unfolding padded_def stop_def using i by (rule chunk_input_length)
  then have tw: "infer_chunk m sess padded = padded" using idt by blast
  have lp: "length (take (stop - i) (drop i mixture)) = stop - i"
    using i by (simp add: stop_def)
  have tp: "take (stop - i) padded = take (stop - i) (drop i mixture)"
    unfolding padded_def using lp by simp
  have "take (stop - i)
          (map2 frame_mul (take (stop - i) padded) (map (\<lambda>w. (w, w)) (hanning (stop - i)))
           @ drop (stop - i) padded)
        = map2 frame_mul (take (stop - i) (drop i mixture)) (map (\<lambda>w. (w, w)) (hanning (stop - i)))"
    unfolding tp using lp by (simp add: length_hanning)
  then show ?thesis
    unfolding chunk_values_result_window [OF ov] chunk_input [OF i]
    using tw by (simp only: stop_def padded_def)
qed

section \<open>The accumulators after the chunk loop\<close>

lemma slice_to_nat: "slice_to xs (int n) = take n xs"
  by (cases "n \<le> length xs") (simp_all add: slice_to_def norm_idx_def min_def)

lemma slice_from_nat: "slice_from xs (int n) = drop n xs"
  by (cases "n \<le> length xs") (simp_all add: slice_from_def norm_idx_def min_def)

lemma inplace_same_length:
  "length operand = length target \<Longrightarrow> inplace f target operand = Inr (map2 f target operand)"
  by (simp add: inplace_def)

lemma add_slice_slice_sum:
  assumes "start \<le> stop" and "stop \<le> length acc" and "length vals = stop - start"
  shows "add_slice start stop vals acc = Inr (slice_sum start stop vals acc)"
proof -
  have sl: "slice_between acc (int start) (int stop) = take (stop - start) (drop start acc)"
    using assms(1,2) by (rule slice_between_nat)
  have "length vals = length (take (stop - start) (drop start acc))" using assms by simp
  then have "inplace frame_add (take (stop - start) (drop start acc)) vals
        = Inr (map2 frame_add (take (stop - start) (drop start acc)) vals)"
    by (rule inplace_same_length)
  then show ?thesis by (simp add: add_slice_def sl slice_sum_def)
qed

lemma chunk_output_length:
  assumes shape: "\<forall>c. length c = chunk_size m \<longrightarrow> length (infer_chunk m sess c) = chunk_size m"
    and i: "i < length mixture"
  shows "length (infer_chunk m sess
           (take (min (i + chunk_size m) (length mixture) - i) (drop i mixture)
            @ replicate (i + chunk_size m - min (i + chunk_size m) (length mixture)) (0, 0)))
         = chunk_size m"
  using shape chunk_input_length [OF i, of m] by blast

lemma chunk_result_length:
  assumes shape: "\<forall>c. length c = chunk_size m \<longrightarrow> length (infer_chunk m sess c) = chunk_size m"
    and i: "i < length mixture" and len: "length (fst acc) = length mixture"
  shows "length (fst (chunk_values m sess overlap mixture i acc)) = length mixture"
proof -
  define stop where "stop = min (i + chunk_size m) (length mixture)"
  define tw where "tw = infer_chunk m sess
     (take (stop - i) (drop i mixture) @ replicate (i + chunk_size m - stop) (0, 0))"
  have ltw: "length tw = chunk_size m"
    unfolding tw_def stop_def using shape i by (rule chunk_output_length)
  have le: "i \<le> stop" "stop \<le> length (fst acc)" "stop - i \<le> chunk_size m"
    using i len by (simp_all add: stop_def)
  show ?thesis
  proof (cases "overlap = 0")
    case True
    have "fst (chunk_values m sess overlap mixture i acc)
          = slice_sum i stop (take (stop - i) tw) (fst acc)"
      unfolding True chunk_values_result_plain chunk_input [OF i]
      by (simp only: stop_def tw_def)
    then show ?thesis using le ltw len by (simp add: length_slice_sum)
  next
    case False
    have "fst (chunk_values m sess overlap mixture i acc)
          = slice_sum i stop
              (take (stop - i)
                 (map2 frame_mul (take (stop - i) tw) (map (\<lambda>w. (w, w)) (hanning (stop - i)))
                  @ drop (stop - i) tw))
              (fst acc)"
      unfolding chunk_values_result_window [OF False] chunk_input [OF i]
      by (simp only: stop_def tw_def)
    then show ?thesis using le ltw len by (simp add: length_slice_sum length_hanning)
  qed
qed

lemma demix_chunk_values:
  assumes shape: "\<forall>c. length c = chunk_size m \<longrightarrow> length (infer_chunk m sess c) = chunk_size m"
    and i: "i < length mixture"
    and lr: "length (fst acc) = length mixture" and ld: "length (snd acc) = length mixture"
  shows "demix_chunk m sess overlap mixture i acc
         = Inr (chunk_values m sess overlap mixture i acc)"
proof -
  define stop where "stop = min (i + chunk_size m) (length mixture)"
  define part where "part =
     (if stop \<noteq> i + chunk_size m
      then slice_between mixture (int i) (int stop) @ replicate (i + chunk_size m - stop) (0, 0)
      else slice_between mixture (int i) (int stop))"
  define tw where "tw = infer_chunk m sess part"
  define win where "win = map (\<lambda>w. (w, w)) (hanning (stop - i))"
  have le: "i \<le> stop" "stop \<le> length mixture" "stop - i \<le> chunk_size m"
    using i by (simp_all add: stop_def)
  have "part = take (stop - i) (drop i mixture) @ replicate (i + chunk_size m - stop) (0, 0)"
    unfolding part_def stop_def using i by (rule chunk_input)
  then have ltw: "length tw = chunk_size m"
    unfolding tw_def stop_def using chunk_output_length [OF shape i] by simp
  have lw: "length win = stop - i" by (simp add: win_def length_hanning)
  have lt: "length (take (stop - i) tw) = stop - i" using ltw le by simp
  show ?thesis
  proof (cases "overlap = 0")
    case True
    have lhs: "demix_chunk m sess overlap mixture i acc =
       (case add_slice i stop (replicate (stop - i) (1, 1)) (snd acc) of
          Inl e \<Rightarrow> Inl e
        | Inr divider \<Rightarrow>
            (case add_slice i stop (slice_to tw (int (stop - i))) (fst acc) of
               Inl e \<Rightarrow> Inl e
             | Inr result \<Rightarrow> Inr (result, divider)))"
      unfolding True tw_def part_def stop_def
      by (simp only: demix_chunk_def Let_def simp_thms if_True option.case fst_conv snd_conv)
    have rhs: "chunk_values m sess overlap mixture i acc =
       (slice_sum i stop (take (stop - i) tw) (fst acc),
        slice_sum i stop (replicate (stop - i) (1, 1)) (snd acc))"
      unfolding True tw_def part_def stop_def
      by (simp only: chunk_values_def Let_def simp_thms if_True option.case fst_conv snd_conv)
    have d: "add_slice i stop (replicate (stop - i) (1, 1)) (snd acc)
             = Inr (slice_sum i stop (replicate (stop - i) (1, 1)) (snd acc))"
      using le ld by (intro add_slice_slice_sum) simp_all
    have r: "add_slice i stop (take (stop - i) tw) (fst acc)
             = Inr (slice_sum i stop (take (stop - i) tw) (fst acc))"
      using le lr lt by (intro add_slice_slice_sum) simp_all
    show ?thesis by (simp only: lhs rhs slice_to_nat d r sum.case)
  next
    case False
    have lhs: "demix_chunk m sess overlap mixture i acc =
       (case inplace frame_mul (slice_to tw (int (stop - i))) win of
          Inl e \<Rightarrow> Inl e
        | Inr windowed \<Rightarrow>
            (case add_slice i stop win (snd acc) of
               Inl e \<Rightarrow> Inl e
             | Inr divider \<Rightarrow>
                 (case add_slice i stop
                         (slice_to (windowed @ slice_from tw (int (stop - i))) (int (stop - i)))
                         (fst acc) of
                    Inl e \<Rightarrow> Inl e
                  | Inr result \<Rightarrow> Inr (result, divider))))"
      unfolding tw_def part_def stop_def win_def using False
      by (simp only: demix_chunk_def Let_def simp_thms if_False option.case fst_conv snd_conv)
    have rhs: "chunk_values m sess overlap mixture i acc =
       (slice_sum i stop
          (take (stop - i) (map2 frame_mul (take (stop - i) tw) win @ drop (stop - i) tw))
          (fst acc),
        slice_sum i stop win (snd acc))"
      unfolding tw_def part_def stop_def win_def using False
      by (simp only: chunk_values_def Let_def simp_thms if_False option.case fst_conv snd_conv)
    have ip: "inplace frame_mul (take (stop - i) tw) win
              = Inr (map2 frame_mul (take (stop - i) tw) win)"
      using lw lt by (intro inplace_same_length) simp
    have d: "add_slice i stop win (snd acc) = Inr (slice_sum i stop win (snd acc))"
      using le ld lw by (intro add_slice_slice_sum) simp_all
    have "length (take (stop - i) (map2 frame_mul (take (stop - i) tw) win @ drop (stop - i) tw))
          = stop - i"
      using lw lt by simp
    then have r: "add_slice i stop
         (take (stop - i) (map2 frame_mul (take (stop - i) tw) win @ drop (stop - i) tw)) (fst acc)
       = Inr (slice_sum i stop
         (take (stop - i) (map2 frame_mul (take (stop - i) tw) win @ drop (stop - i) tw)) (fst acc))"
      using le lr by (intro add_slice_slice_sum) simp_all
    show ?thesis by (simp only: lhs rhs slice_to_nat slice_from_nat ip d r sum.case)
  qed
qed

lemma demix_loop_fold:
  assumes shape: "\<forall>c. length c = chunk_size m \<longrightarrow> length (infer_chunk m sess c) = chunk_size m"
    and "\<forall>i\<in>set starts. i < length mixture"
    and "length (fst acc) = length mixture" and "length (snd acc) = length mixture"
  shows "demix_loop m sess overlap mixture starts acc
         = Inr (fold (chunk_values m sess overlap mixture) starts acc)"
  using assms(2-)
proof (induction starts arbitrary: acc)
  case Nil
  then show ?case by simp
next
  case (Cons i starts)
  let ?acc = "chunk_values m sess overlap mixture i acc"
  have i: "i < length mixture" using Cons.prems(1) by simp
  have c: "demix_chunk m sess overlap mixture i acc = Inr ?acc"
    using shape i Cons.prems(2,3) by (rule demix_chunk_values)
  have lr: "length (fst ?acc) = length mixture"
    using shape i Cons.prems(2) by (rule chunk_result_length)
  have ld: "length (snd ?acc) = length mixture"
    using i Cons.prems(3) by (rule chunk_divider_length)
  have b: "\<forall>i\<in>set starts. i < length mixture" using Cons.prems(1) by simp
  from Cons.IH [OF b lr ld] c show ?case by simp
qed

lemma identity_keeps_shape:
  "\<forall>c. length c = n \<longrightarrow> f c = c \<Longrightarrow> \<forall>c. length c = n \<longrightarrow> length (f c) = n"
  by simp

lemma chunk_result_nth:
  assumes idt: "\<forall>c. length c = chunk_size m \<longrightarrow> infer_chunk m sess c = c"
    and i: "i < length mixture" and len: "length (fst acc) = length mixture"
    and p: "p < length mixture"
  shows "fst (chunk_values m sess overlap mixture i acc) ! p =
     frame_add (fst acc ! p)
       (fst (mixture ! p) * chunk_weight overlap (chunk_size m) (length mixture) i p,
        snd (mixture ! p) * chunk_weight overlap (chunk_size m) (length mixture) i p)"
proof -
  define stop where "stop = min (i + chunk_size m) (length mixture)"
  define part where "part = take (stop - i) (drop i mixture)"
  have le: "i \<le> stop" "stop \<le> length (fst acc)" using i len by (simp_all add: stop_def)
  have p': "p < length (fst acc)" using p len by simp
  have lp: "length part = stop - i" using i by (simp add: part_def stop_def)
  have part_nth: "part ! (p - i) = mixture ! p" if "i \<le> p" and "p < stop"
  proof -
    have "p - i < stop - i" using that by simp
    then have "part ! (p - i) = drop i mixture ! (p - i)" by (simp add: part_def)
    also have "\<dots> = mixture ! (i + (p - i))" using i by (intro nth_drop) simp
    finally show ?thesis using that by simp
  qed
  show ?thesis
  proof (cases "overlap = 0")
    case True
    have "fst (chunk_values m sess overlap mixture i acc) = slice_sum i stop part (fst acc)"
      unfolding True chunk_result_plain_identity [OF idt i] stop_def part_def ..
    then show ?thesis
      using True slice_sum_nth [OF le lp p'] part_nth
      by (auto simp add: chunk_weight_def frame_add_def stop_def [symmetric])
  next
    case False
    let ?w = "map (\<lambda>w. (w, w)) (hanning (stop - i))"
    have lw: "length (map2 frame_mul part ?w) = stop - i"
      using lp by (simp add: length_hanning)
    have "fst (chunk_values m sess overlap mixture i acc) =
        slice_sum i stop (map2 frame_mul part ?w) (fst acc)"
      unfolding chunk_result_window_identity [OF idt i False] stop_def part_def ..
    then show ?thesis
      using False slice_sum_nth [OF le lw p'] part_nth lp
      by (auto simp add: chunk_weight_def frame_add_def frame_mul_def length_hanning
          stop_def [symmetric])
  qed
qed

lemma fold_divider:
  assumes "\<forall>i\<in>set starts. i < length mixture" and "length (snd acc) = length mixture"
    and "p < length mixture"
  shows "length (snd (fold (chunk_values m sess overlap mixture) starts acc)) = length mixture \<and>
     snd (fold (chunk_values m sess overlap mixture) starts acc) ! p =
       (fst (snd acc ! p)
          + sum_list (map (\<lambda>i. chunk_weight overlap (chunk_size m) (length mixture) i p) starts),
        snd (snd acc ! p)
          + sum_list (map (\<lambda>i. chunk_weight overlap (chunk_size m) (length mixture) i p) starts))"
  using assms
proof (induction starts arbitrary: acc)
  case Nil
  then show ?case by simp
next
  case (Cons i starts)
  let ?acc = "chunk_values m sess overlap mixture i acc"
  have i: "i < length mixture" using Cons.prems(1) by simp
  have l: "length (snd ?acc) = length mixture"
    using i Cons.prems(2) by (rule chunk_divider_length)
  have n: "snd ?acc ! p = frame_add (snd acc ! p)
       (chunk_weight overlap (chunk_size m) (length mixture) i p,
        chunk_weight overlap (chunk_size m) (length mixture) i p)"
    using i Cons.prems(2,3) by (rule chunk_divider_nth)
  have "\<forall>i\<in>set starts. i < length mixture" using Cons.prems(1) by simp
  from Cons.IH [OF this l Cons.prems(3)] n show ?case
    by (simp add: frame_add_def add.assoc)
qed

lemma fold_result:
  assumes idt: "\<forall>c. length c = chunk_size m \<longrightarrow> infer_chunk m sess c = c"
    and "\<forall>i\<in>set starts. i < length mixture" and "length (fst acc) = length mixture"
    and "p < length mixture"
  shows "length (fst (fold (chunk_values m sess overlap mixture) starts acc)) = length mixture \<and>
     fst (fold (chunk_values m sess overlap mixture) starts acc) ! p =
       (fst (fst acc ! p) + fst (mixture ! p)
          * sum_list (map (\<lambda>i. chunk_weight overlap (chunk_size m) (length mixture) i p) starts),
        snd (fst acc ! p) + snd (mixture ! p)
          * sum_list (map (\<lambda>i. chunk_weight overlap (chunk_size m) (length mixture) i p) starts))"
  using assms(2-)
proof (induction starts arbitrary: acc)
  case Nil
  then show ?case by simp
next
  case (Cons i starts)
  let ?acc = "chunk_values m sess overlap mixture i acc"
  have i: "i < length mixture" using Cons.prems(1) by simp
  have l: "length (fst ?acc) = length mixture"
    using identity_keeps_shape [OF idt] i Cons.prems(2) by (rule chunk_result_length)
  have n: "fst ?acc ! p = frame_add (fst acc ! p)
       (fst (mixture ! p) * chunk_weight overlap (chunk_size m) (length mixture) i p,
        snd (mixture ! p) * chunk_weight overlap (chunk_size m) (length mixture) i p)"
    using idt i Cons.prems(2,3) by (rule chunk_result_nth)
  have "\<forall>i\<in>set starts. i < length mixture" using Cons.prems(1) by simp
  from Cons.IH [OF this l Cons.prems(3)] n show ?case
    by (simp add: frame_add_def algebra_simps)
qed

section \<open>Chunk starts and the weight of a position\<close>

lemma range_start_less:
  fixes s k L :: nat
  assumes "0 < s" and "k < (L + s - 1) div s"
  shows "k * s < L"
proof -
  have "Suc k \<le> (L + s - 1) div s" using assms(2) by simp
  then have "Suc k * s \<le> L + s - 1"
    using assms(1) by (simp only: less_eq_div_iff_mult_less_eq)
  then show ?thesis using assms(1) by simp
qed

lemma range_start_member:
  fixes s q L :: nat
  assumes "0 < s" and "q * s < L"
  shows "q * s \<in> set (map (\<lambda>k. k * s) [0..<(L + s - 1) div s])"
proof -
  have "Suc q * s \<le> L + s - 1" using assms by simp
  then have "Suc q \<le> (L + s - 1) div s"
    using assms(1) by (simp only: less_eq_div_iff_mult_less_eq)
  then have "q < (L + s - 1) div s" by simp
  then have "q \<in> set [0..<(L + s - 1) div s]" by simp
  then show ?thesis by (simp only: set_map) (rule imageI)
qed

lemma range_starts_bounded:
  fixes s L :: nat
  shows "0 < s \<Longrightarrow> \<forall>i\<in>set (map (\<lambda>k. k * s) [0..<(L + s - 1) div s]). i < L"
  by (auto simp add: range_start_less)

lemma chunk_weight_nonneg: "0 \<le> chunk_weight overlap cs L i p"
proof (cases "i \<le> p \<and> p < min (i + cs) L")
  case True
  then have "p - i < min (i + cs) L - i" by auto
  then have "0 \<le> hanning (min (i + cs) L - i) ! (p - i)" by (rule hanning_nonneg)
  then show ?thesis using True by (simp add: chunk_weight_def)
next
  case False
  then show ?thesis by (simp only: chunk_weight_def if_False order_refl)
qed

lemma weight_sum_positive_plain:
  assumes "0 < s" and "s \<le> cs" and "p < L"
  shows "0 < sum_list (map (\<lambda>i. chunk_weight 0 cs L i p) (map (\<lambda>k. k * s) [0..<(L + s - 1) div s]))"
proof -
  define i where "i = (p div s) * s"
  have le: "i \<le> p" by (simp add: i_def)
  have "p < i + s"
    unfolding i_def using assms(1)
    by (metis add.commute div_mult_mod_eq mod_less_divisor nat_add_left_cancel_less mult.commute)
  then have "p < i + cs" using assms(2) by linarith
  then have w: "chunk_weight 0 cs L i p = 1"
    using le assms(3) by (simp add: chunk_weight_def)
  have "i < L" using le assms(3) by (rule le_less_trans)
  then have mem: "i \<in> set (map (\<lambda>k. k * s) [0..<(L + s - 1) div s])"
    unfolding i_def using assms(1) by (rule range_start_member [rotated])
  show ?thesis
  proof (rule sum_list_pos_member [OF _ mem])
    show "\<forall>x\<in>set (map (\<lambda>k. k * s) [0..<(L + s - 1) div s]). 0 \<le> chunk_weight 0 cs L x p"
      by (simp add: chunk_weight_nonneg)
    show "0 < chunk_weight 0 cs L i p" by (simp only: w zero_less_one)
  qed
qed

lemma weight_sum_positive_window:
  assumes "overlap \<noteq> 0" and "0 < s" and "s + 2 \<le> cs" and "0 < p" and "p + 1 < L"
  shows "0 < sum_list (map (\<lambda>i. chunk_weight overlap cs L i p) (map (\<lambda>k. k * s) [0..<(L + s - 1) div s]))"
proof -
  define i where "i = ((p - 1) div s) * s"
  define M where "M = min (i + cs) L - i"
  have le: "i \<le> p - 1" by (simp add: i_def)
  then have lt: "i < p" using assms(4) by linarith
  have "p - 1 < i + s"
    unfolding i_def using assms(2)
    by (metis add.commute div_mult_mod_eq mod_less_divisor nat_add_left_cancel_less mult.commute)
  then have up: "p \<le> i + s" using assms(4) by linarith
  have q0: "0 < p - i" using lt by simp
  have q1: "p - i + 1 < M" unfolding M_def using up lt assms(3,5) by linarith
  have cover: "i \<le> p \<and> p < min (i + cs) L" using up lt assms(3,5) by linarith
  have "0 < hanning M ! (p - i)" using q0 q1 by (rule hanning_inside)
  then have w: "0 < chunk_weight overlap cs L i p"
    using cover assms(1) by (simp only: chunk_weight_def M_def if_True if_False simp_thms)
  have "i < L" using lt assms(5) by linarith
  then have "i \<in> set (map (\<lambda>k. k * s) [0..<(L + s - 1) div s])"
    unfolding i_def using assms(2) by (rule range_start_member [rotated])
  then show ?thesis
  proof (rule sum_list_pos_member [rotated])
    show "\<forall>x\<in>set (map (\<lambda>k. k * s) [0..<(L + s - 1) div s]). 0 \<le> chunk_weight overlap cs L x p"
      by (simp add: chunk_weight_nonneg)
    show "0 < chunk_weight overlap cs L i p" by (rule w)
  qed
qed

lemma weight_sum_positive:
  assumes "0 < s" and "s \<le> cs" and "overlap \<noteq> 0 \<longrightarrow> s + 2 \<le> cs"
    and "p < L" and "overlap = 0 \<or> 0 < p \<and> p + 1 < L"
  shows "0 < sum_list (map (\<lambda>i. chunk_weight overlap cs L i p)
                 (map (\<lambda>k. k * s) [0..<(L + s - 1) div s]))"
proof (cases "overlap = 0")
  case True
  show ?thesis
    unfolding True using assms(1,2,4) by (rule weight_sum_positive_plain)
next
  case False
  then show ?thesis
    using assms by (intro weight_sum_positive_window) simp_all
qed

section \<open>Padding and trimming\<close>

lemma demix_mixture_padded:
  assumes "2 * (n_fft m div 2) < chunk_size m"
  shows "\<exists>pad. demix_mixture m mix =
           Inr (replicate (n_fft m div 2) (0, 0) @ mix @ replicate pad (0, 0)) \<and>
         n_fft m div 2 < pad"
proof -
  define trim where "trim = n_fft m div 2"
  define gen_size where "gen_size = int (chunk_size m) - 2 * int trim"
  define pad where "pad = gen_size + int trim - (int (length mix) mod gen_size)"
  have g: "0 < gen_size" using assms by (simp add: gen_size_def trim_def)
  then have "int (length mix) mod gen_size < gen_size" by simp
  then have p: "int trim < pad" by (simp add: pad_def)
  have "demix_mixture m mix =
      (if gen_size = 0 then Inl ZeroDivisionError
       else if pad < 0 then Inl ValueError
       else Inr (replicate trim (0, 0) @ mix @ replicate (nat pad) (0, 0)))"
    unfolding demix_mixture_def Let_def pad_def gen_size_def trim_def by (rule refl)
  then have "demix_mixture m mix = Inr (replicate trim (0, 0) @ mix @ replicate (nat pad) (0, 0))"
    using g p by simp
  moreover have "trim < nat pad" using p by simp
  ultimately show ?thesis unfolding trim_def by blast
qed

lemma demix_accumulate_starts:
  assumes shape: "\<forall>c. length c = chunk_size m \<longrightarrow> length (infer_chunk m sess c) = chunk_size m"
    and step: "demix_step overlap (chunk_size m) = Inr (int s)" and s0: "0 < s"
  shows "demix_accumulate m sess overlap mixture =
     Inr (fold (chunk_values m sess overlap mixture)
            (map (\<lambda>k. k * s) [0..<(length mixture + s - 1) div s])
            (replicate (length mixture) (0, 0), replicate (length mixture) (0, 0)))"
proof -
  let ?starts = "map (\<lambda>k. k * s) [0..<(length mixture + s - 1) div s]"
  let ?zero = "replicate (length mixture) (0::real, 0::real)"
  have r: "py_range_step (length mixture) (int s) = Inr ?starts"
    using s0 by (simp add: py_range_step_def)
  have b: "\<forall>i\<in>set ?starts. i < length mixture"
    using s0 by (rule range_starts_bounded)
  have l: "demix_loop m sess overlap mixture ?starts (?zero, ?zero)
           = Inr (fold (chunk_values m sess overlap mixture) ?starts (?zero, ?zero))"
    using shape b by (rule demix_loop_fold) simp_all
  show ?thesis
    by (simp only: demix_accumulate_def step sum.case Let_def r l)
qed

lemma trimmed_output:
  assumes "length tw = trim + len + pad" and "0 < trim" and "trim < pad"
  shows "slice_to (slice_between tw (int trim) (- int trim)) (int len) = take len (drop trim tw)"
proof -
  let ?L = "length tw"
  have a: "norm_idx ?L (int trim) = trim" using assms by (simp add: norm_idx_def)
  have b: "norm_idx ?L (- int trim) = ?L - trim" using assms by (simp add: norm_idx_def)
  have sb: "slice_between tw (int trim) (- int trim) = take (?L - trim - trim) (drop trim tw)"
    by (simp add: slice_between_def a b)
  have "length (take (?L - trim - trim) (drop trim tw)) = len + pad - trim"
    using assms by simp
  then have c: "norm_idx (length (take (?L - trim - trim) (drop trim tw))) (int len) = len"
    using assms by (simp add: norm_idx_def)
  have "slice_to (take (?L - trim - trim) (drop trim tw)) (int len)
        = take len (take (?L - trim - trim) (drop trim tw))"
    unfolding slice_to_def c ..
  also have "\<dots> = take len (drop trim tw)" using assms by (simp add: min_def)
  finally show ?thesis unfolding sb .
qed

lemma demix_output:
  assumes mx: "demix_mixture m mix = Inr mixture"
    and ac: "demix_accumulate m sess overlap mixture = Inr (result, divider)"
    and lr: "length result = length mixture" and ld: "length divider = length mixture"
    and lm: "length mixture = n_fft m div 2 + length mix + pad"
    and tr: "0 < n_fft m div 2" and pd: "n_fft m div 2 < pad"
  shows "demix mix m sess overlap =
     Inr (map (\<lambda>j. frame_div (result ! (n_fft m div 2 + j)) (divider ! (n_fft m div 2 + j)))
            [0..<length mix])"
proof -
  let ?trim = "n_fft m div 2"
  let ?tw = "map2 frame_div result divider"
  have ltw: "length ?tw = ?trim + length mix + pad" using lr ld lm by simp
  have out: "demix mix m sess overlap = Inr (take (length mix) (drop ?trim ?tw))"
    by (simp add: demix_def mx ac Let_def trimmed_output [OF ltw tr pd])
  have "take (length mix) (drop ?trim ?tw)
        = map (\<lambda>j. frame_div (result ! (?trim + j)) (divider ! (?trim + j))) [0..<length mix]"
  proof (rule nth_equalityI)
    show "length (take (length mix) (drop ?trim ?tw))
          = length (map (\<lambda>j. frame_div (result ! (?trim + j)) (divider ! (?trim + j))) [0..<length mix])"
      using ltw by simp
  next
    fix j assume "j < length (take (length mix) (drop ?trim ?tw))"
    then have j: "j < length mix" by simp
    then have "?trim + j < length result" "?trim + j < length divider"
      using lr ld lm by simp_all
    then show "take (length mix) (drop ?trim ?tw) ! j
          = map (\<lambda>j. frame_div (result ! (?trim + j)) (divider ! (?trim + j))) [0..<length mix] ! j"
      using j by simp
  qed
  then show ?thesis using out by simp
qed


section \<open>Positivity of the divider\<close>

lemma divider_after_loop:
  assumes "0 < s" and "p < length mixture"
  shows "length (snd (fold (chunk_values m sess overlap mixture)
            (map (\<lambda>k. k * s) [0..<(length mixture + s - 1) div s])
            (replicate (length mixture) (0, 0), replicate (length mixture) (0, 0))))
         = length mixture \<and>
     snd (fold (chunk_values m sess overlap mixture)
            (map (\<lambda>k. k * s) [0..<(length mixture + s - 1) div s])
            (replicate (length mixture) (0, 0), replicate (length mixture) (0, 0))) ! p =
       (sum_list (map (\<lambda>i. chunk_weight overlap (chunk_size m) (length mixture) i p)
          (map (\<lambda>k. k * s) [0..<(length mixture + s - 1) div s])),
        sum_list (map (\<lambda>i. chunk_weight overlap (chunk_size m) (length mixture) i p)
          (map (\<lambda>k. k * s) [0..<(length mixture + s - 1) div s])))"
proof -
  let ?starts = "map (\<lambda>k. k * s) [0..<(length mixture + s - 1) div s]"
  let ?zero = "replicate (length mixture) (0::real, 0::real)"
  let ?acc = "fold (chunk_values m sess overlap mixture) ?starts (?zero, ?zero)"
  have b: "\<forall>i\<in>set ?starts. i < length mixture"
    using assms(1) by (rule range_starts_bounded)
  have l: "length (snd (?zero, ?zero)) = length mixture" by simp
  have z: "snd (?zero, ?zero) ! p = (0, 0)" using assms(2) by simp
  have fd: "length (snd ?acc) = length mixture \<and>
     snd ?acc ! p =
       (fst (snd (?zero, ?zero) ! p)
          + sum_list (map (\<lambda>i. chunk_weight overlap (chunk_size m) (length mixture) i p) ?starts),
        snd (snd (?zero, ?zero) ! p)
          + sum_list (map (\<lambda>i. chunk_weight overlap (chunk_size m) (length mixture) i p) ?starts))"
    using b l assms(2) by (rule fold_divider)
  then show ?thesis unfolding z by (simp only: fst_conv snd_conv add_0)
qed

lemma result_after_loop:
  assumes idt: "\<forall>c. length c = chunk_size m \<longrightarrow> infer_chunk m sess c = c"
    and "0 < s" and "p < length mixture"
  shows "length (fst (fold (chunk_values m sess overlap mixture)
            (map (\<lambda>k. k * s) [0..<(length mixture + s - 1) div s])
            (replicate (length mixture) (0, 0), replicate (length mixture) (0, 0))))
         = length mixture \<and>
     fst (fold (chunk_values m sess overlap mixture)
            (map (\<lambda>k. k * s) [0..<(length mixture + s - 1) div s])
            (replicate (length mixture) (0, 0), replicate (length mixture) (0, 0))) ! p =
       (fst (mixture ! p) * sum_list (map (\<lambda>i. chunk_weight overlap (chunk_size m) (length mixture) i p)
          (map (\<lambda>k. k * s) [0..<(length mixture + s - 1) div s])),
        snd (mixture ! p) * sum_list (map (\<lambda>i. chunk_weight overlap (chunk_size m) (length mixture) i p)
          (map (\<lambda>k. k * s) [0..<(length mixture + s - 1) div s])))"
proof -
  let ?starts = "map (\<lambda>k. k * s) [0..<(length mixture + s - 1) div s]"
  let ?zero = "replicate (length mixture) (0::real, 0::real)"
  let ?acc = "fold (chunk_values m sess overlap mixture) ?starts (?zero, ?zero)"
  have b: "\<forall>i\<in>set ?starts. i < length mixture"
    using assms(2) by (rule range_starts_bounded)
  have l: "length (fst (?zero, ?zero)) = length mixture" by simp
  have z: "fst (?zero, ?zero) ! p = (0, 0)" using assms(3) by simp
  have fd: "length (fst ?acc) = length mixture \<and>
     fst ?acc ! p =
       (fst (fst (?zero, ?zero) ! p) + fst (mixture ! p)
          * sum_list (map (\<lambda>i. chunk_weight overlap (chunk_size m) (length mixture) i p) ?starts),
        snd (fst (?zero, ?zero) ! p) + snd (mixture ! p)
          * sum_list (map (\<lambda>i. chunk_weight overlap (chunk_size m) (length mixture) i p) ?starts))"
    using idt b l assms(3) by (rule fold_result)
  then show ?thesis unfolding z by (simp only: fst_conv snd_conv add_0)
qed

text \<open>
  C3, as the code has it. Let \<open>s\<close> be the stride \<^verbatim>\<open>int((1 - overlap) * chunk_size)\<close> as
  it is computed in double precision. If \<open>1 \<le> s \<le> chunk_size\<close>, and
  \<open>s \<le> chunk_size - 2\<close> when the Hann window is used (\<open>overlap \<noteq> 0\<close>), and the chunk
  transform returns chunks of \<open>chunk_size\<close> columns (as \<^verbatim>\<open>istft\<close> does), then the chunk
  loop of \<^verbatim>\<open>demix\<close> ends without an exception, and after it the divider is strictly
  positive at every position of the padded input when no window is used, and at every
  position but the first and the last one when the window is used. The first and the
  last position lie in the padding, so the divider is strictly positive throughout the
  valid region \<open>[trim, trim + N)\<close> (for \<open>n_fft \<ge> 2\<close>) and the division there is by a
  non-zero number.
\<close>

theorem divider_positive_in_valid_region:
  assumes gen: "2 * (n_fft m div 2) < chunk_size m"
    and shape: "\<forall>c. length c = chunk_size m \<longrightarrow>
                  length (infer_chunk m infer_session c) = chunk_size m"
    and step: "demix_step overlap (chunk_size m) = Inr (int s)"
    and s0: "0 < s" and s1: "s \<le> chunk_size m"
    and window: "overlap \<noteq> 0 \<longrightarrow> s + 2 \<le> chunk_size m"
  shows "\<exists>mixture result divider.
     demix_mixture m mix = Inr mixture \<and>
     demix_accumulate m infer_session overlap mixture = Inr (result, divider) \<and>
     length divider = length mixture \<and>
     (\<forall>p<length mixture. (overlap = 0 \<or> 0 < p \<and> p + 1 < length mixture) \<longrightarrow>
        0 < fst (divider ! p) \<and> 0 < snd (divider ! p)) \<and>
     (2 \<le> n_fft m \<longrightarrow>
        (\<forall>j<length mix. 0 < fst (divider ! (n_fft m div 2 + j)) \<and>
                         0 < snd (divider ! (n_fft m div 2 + j))))"
proof -
  let ?trim = "n_fft m div 2"
  from demix_mixture_padded [OF gen, of mix] obtain pad where
    mx: "demix_mixture m mix = Inr (replicate ?trim (0, 0) @ mix @ replicate pad (0, 0))"
    and pd: "?trim < pad" by blast
  define mixture where "mixture = replicate ?trim (0::real, 0::real) @ mix @ replicate pad (0, 0)"
  have L: "length mixture = ?trim + length mix + pad" by (simp add: mixture_def)
  define acc where "acc = fold (chunk_values m infer_session overlap mixture)
            (map (\<lambda>k. k * s) [0..<(length mixture + s - 1) div s])
            (replicate (length mixture) (0, 0), replicate (length mixture) (0, 0))"
  have ac: "demix_accumulate m infer_session overlap mixture = Inr (fst acc, snd acc)"
    using demix_accumulate_starts [OF shape step s0, of mixture] by (simp add: acc_def)
  have dl: "length (snd acc) = length mixture"
  proof -
    have "0 < length mixture" using L pd by simp
    from divider_after_loop [OF s0 this, of m infer_session overlap] show ?thesis
      by (simp only: acc_def)
  qed
  have pos: "0 < fst (snd acc ! p) \<and> 0 < snd (snd acc ! p)"
    if p: "p < length mixture" and c: "overlap = 0 \<or> 0 < p \<and> p + 1 < length mixture" for p
  proof -
    have w: "0 < sum_list (map (\<lambda>i. chunk_weight overlap (chunk_size m) (length mixture) i p)
                 (map (\<lambda>k. k * s) [0..<(length mixture + s - 1) div s]))"
      using s0 s1 window p c by (rule weight_sum_positive)
    from divider_after_loop [OF s0 p, of m infer_session overlap] w show ?thesis
      by (simp only: acc_def [symmetric] fst_conv snd_conv simp_thms)
  qed
  have valid: "0 < fst (snd acc ! (?trim + j)) \<and> 0 < snd (snd acc ! (?trim + j))"
    if "2 \<le> n_fft m" and "j < length mix" for j
  proof -
    have "0 < ?trim" using that(1) by simp
    then have "?trim + j < length mixture" "0 < ?trim + j \<and> ?trim + j + 1 < length mixture"
      using that(2) pd L by simp_all
    then show ?thesis using pos by blast
  qed
  show ?thesis
  proof (intro exI conjI)
    show "demix_mixture m mix = Inr mixture" using mx by (simp only: mixture_def)
    show "demix_accumulate m infer_session overlap mixture = Inr (fst acc, snd acc)" by (rule ac)
    show "length (snd acc) = length mixture" by (rule dl)
    show "\<forall>p<length mixture. (overlap = 0 \<or> 0 < p \<and> p + 1 < length mixture) \<longrightarrow>
        0 < fst (snd acc ! p) \<and> 0 < snd (snd acc ! p)"
      using pos by blast
    show "2 \<le> n_fft m \<longrightarrow>
        (\<forall>j<length mix. 0 < fst (snd acc ! (?trim + j)) \<and> 0 < snd (snd acc ! (?trim + j)))"
      using valid by blast
  qed
qed

section \<open>The identity model and the zeros of the divider\<close>

lemma get_models_identity: "get_models 2 split_stft join_istft = [identity_model]"
  by (simp add: get_models_def identity_model_def)

lemma identity_model_sizes:
  "n_fft identity_model = 7680" "hop identity_model = 1024" "chunk_size identity_model = 261120"
  by (simp_all add: identity_model_def chunk_size_def dim_t_def)

lemma identity_model_chunk: "infer_chunk identity_model identity_session c = c"
  by (simp add: infer_chunk_def model_output_def identity_model_def identity_session_def
      split_stft_def join_istft_def zero_low_bins_def slice_to_def slice_from_def norm_idx_def
      zip_map_fst_snd)

lemma sum_list_all_zero:
  fixes f :: "'a \<Rightarrow> real"
  shows "\<forall>x\<in>set xs. f x = 0 \<Longrightarrow> sum_list (map f xs) = 0"
  by (induction xs) simp_all

lemma weight_zero_at_origin:
  assumes "overlap \<noteq> 0" and "2 \<le> cs" and "2 \<le> L"
  shows "chunk_weight overlap cs L i 0 = 0"
proof (cases "i = 0")
  case True
  have "2 \<le> min cs L" using assms by simp
  then have "hanning (min cs L) ! 0 = 0" by (rule hanning_first)
  then show ?thesis using True assms by (simp add: chunk_weight_def)
next
  case False
  then show ?thesis by (simp add: chunk_weight_def)
qed

lemma weight_zero_at_seam:
  assumes "overlap \<noteq> 0" and "2 \<le> cs" and "cs + 1 \<le> L"
  shows "chunk_weight overlap cs L (k * (cs - 1)) (cs - 1) = 0"
proof -
  consider "k = 0" | "k = 1" | "2 \<le> k" by linarith
  then show ?thesis
  proof cases
    case 1
    have m: "min cs L = cs" using assms by simp
    have "hanning cs ! (cs - 1) = 0" using assms(2) by (rule hanning_last)
    then show ?thesis using 1 assms by (simp add: chunk_weight_def m)
  next
    case 2
    have "2 \<le> min (cs - 1 + cs) L - (cs - 1)" using assms by simp
    then have "hanning (min (cs - 1 + cs) L - (cs - 1)) ! 0 = 0" by (rule hanning_first)
    then show ?thesis using 2 assms by (simp add: chunk_weight_def)
  next
    case 3
    then have "2 * (cs - 1) \<le> k * (cs - 1)" by (intro mult_le_mono1)
    then have "\<not> k * (cs - 1) \<le> cs - 1" using assms(2) by linarith
    then show ?thesis by (simp only: chunk_weight_def simp_thms if_False)
  qed
qed

theorem divider_positive_in_valid_region_witness:
  "2 * (n_fft identity_model div 2) < chunk_size identity_model \<and>
   infer_chunk identity_model identity_session = (\<lambda>c. c) \<and>
   demix_step (1 / 4) (chunk_size identity_model) = Inr (int 195840) \<and>
   (0::nat) < 195840 \<and> 195840 \<le> chunk_size identity_model \<and>
   195840 + 2 \<le> chunk_size identity_model \<and>
   (\<exists>mixture result divider.
     demix_mixture identity_model [(1, 2), (3, 4)] = Inr mixture \<and>
     demix_accumulate identity_model identity_session (1 / 4) mixture = Inr (result, divider) \<and>
     length divider = length mixture \<and>
     (\<forall>p<length mixture. ((1::real) / 4 = 0 \<or> 0 < p \<and> p + 1 < length mixture) \<longrightarrow>
        0 < fst (divider ! p) \<and> 0 < snd (divider ! p)) \<and>
     (2 \<le> n_fft identity_model \<longrightarrow>
        (\<forall>j<length [(1::real, 2::real), (3, 4)].
           0 < fst (divider ! (n_fft identity_model div 2 + j)) \<and>
           0 < snd (divider ! (n_fft identity_model div 2 + j)))))"
proof -
  have h1: "2 * (n_fft identity_model div 2) < chunk_size identity_model"
    by (simp add: identity_model_sizes)
  have h2: "\<forall>c. length c = chunk_size identity_model \<longrightarrow>
      length (infer_chunk identity_model identity_session c) = chunk_size identity_model"
    by (simp add: identity_model_chunk)
  have h2': "infer_chunk identity_model identity_session = (\<lambda>c. c)"
    by (rule ext) (rule identity_model_chunk)
  have h3: "demix_step (1 / 4) (chunk_size identity_model) = Inr (int 195840)"
    by (simp add: identity_model_sizes demix_step_quarter)
  have h4: "(0::nat) < 195840" by simp
  have h5: "195840 \<le> chunk_size identity_model" by (simp add: identity_model_sizes)
  have h6: "195840 + 2 \<le> chunk_size identity_model" by (simp add: identity_model_sizes)
  then have h6': "(1::real) / 4 \<noteq> 0 \<longrightarrow> 195840 + 2 \<le> chunk_size identity_model"
    by (rule impI)
  from divider_positive_in_valid_region [OF h1 h2 h3 h4 h5 h6', of "[(1, 2), (3, 4)]"]
    h1 h2' h3 h4 h5 h6
  show ?thesis by (intro conjI)
qed

lemma divider_zero_at_origin:
  assumes "overlap \<noteq> 0" and "0 < s" and "2 \<le> chunk_size m" and "2 \<le> length mixture"
  shows "snd (fold (chunk_values m sess overlap mixture)
            (map (\<lambda>k. k * s) [0..<(length mixture + s - 1) div s])
            (replicate (length mixture) (0, 0), replicate (length mixture) (0, 0))) ! 0 = (0, 0)"
proof -
  have p: "0 < length mixture" using assms(4) by linarith
  have "sum_list (map (\<lambda>i. chunk_weight overlap (chunk_size m) (length mixture) i 0)
          (map (\<lambda>k. k * s) [0..<(length mixture + s - 1) div s])) = 0"
    by (rule sum_list_all_zero) (simp add: weight_zero_at_origin [OF assms(1,3,4)])
  with divider_after_loop [OF assms(2) p, of m sess overlap] show ?thesis by simp
qed

lemma divider_zero_at_seam:
  assumes "overlap \<noteq> 0" and "2 \<le> chunk_size m" and "chunk_size m + 1 \<le> length mixture"
  shows "snd (fold (chunk_values m sess overlap mixture)
            (map (\<lambda>k. k * (chunk_size m - 1))
               [0..<(length mixture + (chunk_size m - 1) - 1) div (chunk_size m - 1)])
            (replicate (length mixture) (0, 0), replicate (length mixture) (0, 0)))
          ! (chunk_size m - 1) = (0, 0)"
proof -
  have s: "0 < chunk_size m - 1" using assms(2) by simp
  have p: "chunk_size m - 1 < length mixture" using assms(2,3) by simp
  have "sum_list (map (\<lambda>i. chunk_weight overlap (chunk_size m) (length mixture) i (chunk_size m - 1))
          (map (\<lambda>k. k * (chunk_size m - 1))
             [0..<(length mixture + (chunk_size m - 1) - 1) div (chunk_size m - 1)])) = 0"
  proof (rule sum_list_all_zero, rule ballI)
    fix x
    assume "x \<in> set (map (\<lambda>k. k * (chunk_size m - 1))
             [0..<(length mixture + (chunk_size m - 1) - 1) div (chunk_size m - 1)])"
    then obtain k where "x = k * (chunk_size m - 1)" by auto
    then show "chunk_weight overlap (chunk_size m) (length mixture) x (chunk_size m - 1) = 0"
      by (simp only: weight_zero_at_seam [OF assms])
  qed
  with divider_after_loop [OF s p, of m sess overlap] show ?thesis by simp
qed

text \<open>
  The divider is not positive at every covered position, as C3 has it: with the sizes of
  the ONNX model (\<open>n_fft = 7680\<close>, chunks of \<open>261120\<close> samples), an overlap of \<open>0.25\<close>
  (stride \<open>195840\<close>, below the chunk size) and an empty input, the padded input has
  \<open>261120\<close> samples, position \<open>0\<close> is covered by the first chunk only, the Hann window
  is \<open>0\<close> there, and the divider at position \<open>0\<close> is \<open>0\<close> after the loop.
\<close>

theorem divider_zero_counterexample:
  "demix_step (1 / 4) (chunk_size identity_model) = Inr 195840 \<and>
   195840 \<le> chunk_size identity_model \<and>
   demix_mixture identity_model [] = Inr (replicate 261120 (0, 0)) \<and>
   (case demix_accumulate identity_model identity_session (1 / 4) (replicate 261120 (0, 0)) of
      Inl e \<Rightarrow> False
    | Inr (result, divider) \<Rightarrow> divider ! 0 = (0, 0))"
proof -
  have a: "demix_mixture identity_model [] = Inr (replicate 261120 (0, 0))"
  proof -
    have "replicate 3840 (0::real, 0::real) @ replicate 257280 (0, 0) = replicate (3840 + 257280) (0, 0)"
      by (simp only: replicate_add)
    then show ?thesis
      by (simp add: demix_mixture_def identity_model_sizes Let_def)
  qed
  let ?mixture = "replicate 261120 (0::real, 0::real)"
  have shape: "\<forall>c. length c = chunk_size identity_model \<longrightarrow>
      length (infer_chunk identity_model identity_session c) = chunk_size identity_model"
    by (simp add: identity_model_chunk)
  have step: "demix_step (1 / 4) (chunk_size identity_model) = Inr (int 195840)"
    by (simp add: identity_model_sizes demix_step_quarter)
  have ac: "demix_accumulate identity_model identity_session (1 / 4) ?mixture =
     Inr (fold (chunk_values identity_model identity_session (1 / 4) ?mixture)
            (map (\<lambda>k. k * 195840) [0..<(length ?mixture + 195840 - 1) div 195840])
            (replicate (length ?mixture) (0, 0), replicate (length ?mixture) (0, 0)))"
    by (rule demix_accumulate_starts [OF shape step]) simp
  have z: "snd (fold (chunk_values identity_model identity_session (1 / 4) ?mixture)
            (map (\<lambda>k. k * 195840) [0..<(length ?mixture + 195840 - 1) div 195840])
            (replicate (length ?mixture) (0, 0), replicate (length ?mixture) (0, 0))) ! 0 = (0, 0)"
    by (rule divider_zero_at_origin) (simp_all add: identity_model_sizes)
  have b: "demix_step (1 / 4) (chunk_size identity_model) = Inr 195840"
    using step by simp
  have c: "195840 \<le> chunk_size identity_model" by (simp add: identity_model_sizes)
  have d: "(case demix_accumulate identity_model identity_session (1 / 4) ?mixture of
      Inl e \<Rightarrow> False
    | Inr (result, divider) \<Rightarrow> divider ! 0 = (0, 0))"
    using z by (simp only: ac sum.case split_beta simp_thms)
  from b c a d show ?thesis by (intro conjI)
qed

section \<open>Overlap-add with the identity transform\<close>

lemma frame_div_weighted:
  "0 < w \<Longrightarrow> frame_div (x * w, y * w) (w, w) = (Some x, Some y)"
  by (simp add: frame_div_def fdiv_def)

text \<open>
  C4, as the code has it. Let \<open>s\<close> be the stride \<^verbatim>\<open>int((1 - overlap) * chunk_size)\<close> as
  it is computed in double precision. If the chunk transform (STFT, zeroing of the low
  bins, network, inverse STFT) returns every chunk unchanged, \<open>1 \<le> s \<le> chunk_size\<close>,
  and \<open>s \<le> chunk_size - 2\<close> when the Hann window is used (\<open>overlap \<noteq> 0\<close>), then for
  every stereo input, of any length, \<^verbatim>\<open>demix\<close> returns the input: every sample of the
  output is finite and equal to the input sample.
\<close>

theorem overlap_add_identity:
  assumes nfft: "2 \<le> n_fft m"
    and gen: "2 * (n_fft m div 2) < chunk_size m"
    and step: "demix_step overlap (chunk_size m) = Inr (int s)"
    and s0: "0 < s" and s1: "s \<le> chunk_size m"
    and window: "overlap \<noteq> 0 \<longrightarrow> s + 2 \<le> chunk_size m"
    and idt: "\<forall>c. length c = chunk_size m \<longrightarrow> infer_chunk m infer_session c = c"
  shows "demix mix m infer_session overlap = Inr (finite_frames mix)"
proof -
  let ?trim = "n_fft m div 2"
  have tr: "0 < ?trim" using nfft by simp
  have shape: "\<forall>c. length c = chunk_size m \<longrightarrow>
      length (infer_chunk m infer_session c) = chunk_size m"
    using idt by (rule identity_keeps_shape)
  from demix_mixture_padded [OF gen, of mix] obtain pad where
    mx: "demix_mixture m mix = Inr (replicate ?trim (0, 0) @ mix @ replicate pad (0, 0))"
    and pd: "?trim < pad" by blast
  define mixture where "mixture = replicate ?trim (0::real, 0::real) @ mix @ replicate pad (0, 0)"
  have L: "length mixture = ?trim + length mix + pad" by (simp add: mixture_def)
  have L0: "0 < length mixture" using L pd by simp
  have mx': "demix_mixture m mix = Inr mixture" using mx by (simp only: mixture_def)
  define W where "W p = sum_list (map (\<lambda>i. chunk_weight overlap (chunk_size m) (length mixture) i p)
                 (map (\<lambda>k. k * s) [0..<(length mixture + s - 1) div s]))" for p
  define acc where "acc = fold (chunk_values m infer_session overlap mixture)
            (map (\<lambda>k. k * s) [0..<(length mixture + s - 1) div s])
            (replicate (length mixture) (0, 0), replicate (length mixture) (0, 0))"
  have ac: "demix_accumulate m infer_session overlap mixture = Inr (fst acc, snd acc)"
    using demix_accumulate_starts [OF shape step s0, of mixture] by (simp add: acc_def)
  have dl: "length (snd acc) = length mixture"
    using divider_after_loop [OF s0 L0, of m infer_session overlap] by (simp only: acc_def)
  have rl: "length (fst acc) = length mixture"
    using result_after_loop [OF idt s0 L0, of overlap] by (simp only: acc_def)
  have dn: "snd acc ! p = (W p, W p)" if "p < length mixture" for p
    using divider_after_loop [OF s0 that, of m infer_session overlap]
    by (simp only: acc_def W_def)
  have rn: "fst acc ! p = (fst (mixture ! p) * W p, snd (mixture ! p) * W p)"
    if "p < length mixture" for p
    using result_after_loop [OF idt s0 that, of overlap]
    by (simp only: acc_def W_def)
  have out: "demix mix m infer_session overlap =
     Inr (map (\<lambda>j. frame_div (fst acc ! (?trim + j)) (snd acc ! (?trim + j))) [0..<length mix])"
    using mx' ac rl dl L tr pd by (rule demix_output)
  have "map (\<lambda>j. frame_div (fst acc ! (?trim + j)) (snd acc ! (?trim + j))) [0..<length mix]
        = finite_frames mix"
  proof (rule nth_equalityI)
    show "length (map (\<lambda>j. frame_div (fst acc ! (?trim + j)) (snd acc ! (?trim + j)))
            [0..<length mix]) = length (finite_frames mix)"
      by (simp add: finite_frames_def)
  next
    fix j
    assume "j < length (map (\<lambda>j. frame_div (fst acc ! (?trim + j)) (snd acc ! (?trim + j)))
            [0..<length mix])"
    then have j: "j < length mix" by simp
    have p: "?trim + j < length mixture" using j L by simp
    have inside: "overlap = 0 \<or> 0 < ?trim + j \<and> ?trim + j + 1 < length mixture"
      using tr j pd L by simp
    have w: "0 < W (?trim + j)"
      unfolding W_def using s0 s1 window p inside by (rule weight_sum_positive)
    have mj: "mixture ! (?trim + j) = mix ! j"
      using j by (simp add: mixture_def nth_append)
    have "frame_div (fst acc ! (?trim + j)) (snd acc ! (?trim + j))
          = (Some (fst (mix ! j)), Some (snd (mix ! j)))"
      unfolding rn [OF p] dn [OF p] mj using w by (rule frame_div_weighted)
    then show "map (\<lambda>j. frame_div (fst acc ! (?trim + j)) (snd acc ! (?trim + j)))
            [0..<length mix] ! j = finite_frames mix ! j"
      using j by (simp add: finite_frames_def)
  qed
  then show ?thesis using out by simp
qed

lemma seam_output:
  assumes idt: "\<forall>c. length c = chunk_size m \<longrightarrow> infer_chunk m sess c = c"
    and ov: "overlap \<noteq> 0"
    and step: "demix_step overlap (chunk_size m) = Inr (int (chunk_size m - 1))"
    and cs: "2 \<le> chunk_size m"
    and mx: "demix_mixture m mix = Inr mixture"
    and lm: "length mixture = n_fft m div 2 + length mix + pad"
    and tr: "0 < n_fft m div 2" and pd: "n_fft m div 2 < pad"
    and long: "chunk_size m + 1 \<le> length mixture"
    and j: "n_fft m div 2 + j = chunk_size m - 1" and jl: "j < length mix"
  shows "\<exists>out. demix mix m sess overlap = Inr out \<and> out ! j = (None, None)"
proof -
  let ?trim = "n_fft m div 2"
  let ?s = "chunk_size m - 1"
  have s0: "0 < ?s" using cs by simp
  have L0: "0 < length mixture" using long by linarith
  have shape: "\<forall>c. length c = chunk_size m \<longrightarrow> length (infer_chunk m sess c) = chunk_size m"
    using idt by (rule identity_keeps_shape)
  define acc where "acc = fold (chunk_values m sess overlap mixture)
            (map (\<lambda>k. k * ?s) [0..<(length mixture + ?s - 1) div ?s])
            (replicate (length mixture) (0, 0), replicate (length mixture) (0, 0))"
  have ac: "demix_accumulate m sess overlap mixture = Inr (fst acc, snd acc)"
    using demix_accumulate_starts [OF shape step s0, of mixture] by (simp add: acc_def)
  have dl: "length (snd acc) = length mixture"
    using divider_after_loop [OF s0 L0, of m sess overlap] by (simp only: acc_def)
  have rl: "length (fst acc) = length mixture"
    using result_after_loop [OF idt s0 L0, of overlap] by (simp only: acc_def)
  have out: "demix mix m sess overlap =
     Inr (map (\<lambda>j. frame_div (fst acc ! (?trim + j)) (snd acc ! (?trim + j))) [0..<length mix])"
    using mx ac rl dl lm tr pd by (rule demix_output)
  have "snd acc ! ?s = (0, 0)"
    unfolding acc_def using ov cs long by (rule divider_zero_at_seam)
  then have "frame_div (fst acc ! (?trim + j)) (snd acc ! (?trim + j)) = (None, None)"
    unfolding j by (simp add: frame_div_def fdiv_def)
  then have "map (\<lambda>j. frame_div (fst acc ! (?trim + j)) (snd acc ! (?trim + j))) [0..<length mix] ! j
        = (None, None)"
    using jl by (simp only: nth_map_upt diff_zero add_0)
  with out show ?thesis by blast
qed

lemma identity_model_seam:
  assumes ov: "overlap \<noteq> 0"
    and step: "demix_step overlap 261120 = Inr 261119"
  shows "\<exists>out. demix (replicate 261120 (0, 0)) identity_model identity_session overlap = Inr out \<and>
          out ! 257279 = (None, None)"
proof -
  let ?mix = "replicate 261120 (0::real, 0::real)"
  let ?mixture = "replicate 3840 (0::real, 0::real) @ ?mix @ replicate 249600 (0, 0)"
  have idt: "\<forall>c. length c = chunk_size identity_model \<longrightarrow>
      infer_chunk identity_model identity_session c = c"
    by (simp add: identity_model_chunk)
  have mx: "demix_mixture identity_model ?mix = Inr ?mixture"
    by (simp add: demix_mixture_def identity_model_sizes Let_def)
  have st: "demix_step overlap (chunk_size identity_model)
            = Inr (int (chunk_size identity_model - 1))"
    using step by (simp add: identity_model_sizes)
  show ?thesis
  proof (rule seam_output [OF idt ov st _ mx, where pad = 249600])
    show "2 \<le> chunk_size identity_model" by (simp add: identity_model_sizes)
    show "length ?mixture = n_fft identity_model div 2 + length ?mix + 249600"
      by (simp add: identity_model_sizes)
    show "0 < n_fft identity_model div 2" by (simp add: identity_model_sizes)
    show "n_fft identity_model div 2 < 249600" by (simp add: identity_model_sizes)
    show "chunk_size identity_model + 1 \<le> length ?mixture" by (simp add: identity_model_sizes)
    show "n_fft identity_model div 2 + 257279 = chunk_size identity_model - 1"
      by (simp add: identity_model_sizes)
    show "257279 < length ?mix" by simp
  qed
qed

text \<open>
  The identity of C4 does not hold for every overlap in \<open>[0, 0.99)\<close>. With the sizes of
  the ONNX model, an overlap of \<open>2^-20\<close> and one chunk (\<open>261120\<close> samples) of silence,
  the stride is \<open>261119\<close>: position \<open>261119\<close> of the padded input is the last sample of
  the first chunk and the first sample of the second, the Hann window is \<open>0\<close> at both,
  so the divider is \<open>0\<close> there and output sample \<open>257279\<close> is \<open>0 / 0\<close>, not a number,
  where the input sample is \<open>0\<close>.
\<close>

theorem overlap_add_identity_counterexample:
  "(0::real) \<le> 1 / 1048576 \<and> (1::real) / 1048576 < 0.99 \<and>
   chunk_size identity_model \<le> length (replicate 261120 (0::real, 0::real)) \<and>
   infer_chunk identity_model identity_session = (\<lambda>c. c) \<and>
   demix_step (1 / 1048576) (chunk_size identity_model) = Inr 261119 \<and>
   (\<exists>out. demix (replicate 261120 (0, 0)) identity_model identity_session (1 / 1048576) = Inr out \<and>
          out ! 257279 = (None, None)) \<and>
   finite_frames (replicate 261120 (0, 0)) ! 257279 = (Some 0, Some 0)"
proof -
  have ex: "\<exists>out. demix (replicate 261120 (0, 0)) identity_model identity_session (1 / 1048576)
          = Inr out \<and> out ! 257279 = (None, None)"
    by (rule identity_model_seam [OF _ demix_step_tiny]) simp
  have fin: "finite_frames (replicate 261120 (0::real, 0::real)) ! 257279 = (Some 0, Some 0)"
    by (simp add: finite_frames_def)
  have "infer_chunk identity_model identity_session = (\<lambda>c. c)"
    by (rule ext) (rule identity_model_chunk)
  then show ?thesis using ex fin by (simp add: identity_model_sizes demix_step_tiny)
qed

text \<open>
  The same seam appears for the overlap \<open>4521260802379793 / 2^70\<close>, which is greater
  than \<open>1 / chunk_size\<close>: its stride is rounded up to \<open>261119\<close>.
\<close>

lemma rounded_stride_seam:
  "\<exists>out. demix (replicate 261120 (0, 0)) identity_model identity_session
            (4521260802379793 / 1180591620717411303424) = Inr out \<and>
         out ! 257279 = (None, None)"
proof -
  have "demix_step (4521260802379793 / 1180591620717411303424) 261120 = Inr 261119"
    using demix_step_rounded by blast
  then show ?thesis by (rule identity_model_seam [rotated]) simp
qed

theorem overlap_add_identity_witness:
  "2 \<le> n_fft identity_model \<and>
   2 * (n_fft identity_model div 2) < chunk_size identity_model \<and>
   infer_chunk identity_model identity_session = (\<lambda>c. c) \<and>
   demix_step (1 / 4) (chunk_size identity_model) = Inr (int 195840) \<and>
   (0::nat) < 195840 \<and> 195840 \<le> chunk_size identity_model \<and>
   195840 + 2 \<le> chunk_size identity_model \<and>
   demix [(1, 2), (3, 4)] identity_model identity_session (1 / 4)
     = Inr [(Some 1, Some 2), (Some 3, Some 4)] \<and>
   demix_step 0 (chunk_size identity_model) = Inr (int 261120) \<and>
   261120 \<le> chunk_size identity_model \<and>
   demix (replicate 261120 (1, 2)) identity_model identity_session 0
     = Inr (replicate 261120 (Some 1, Some 2))"
proof -
  have h1: "2 \<le> n_fft identity_model" by (simp add: identity_model_sizes)
  have h2: "2 * (n_fft identity_model div 2) < chunk_size identity_model"
    by (simp add: identity_model_sizes)
  have h3: "demix_step (1 / 4) (chunk_size identity_model) = Inr (int 195840)"
    by (simp add: identity_model_sizes demix_step_quarter)
  have h4: "(0::nat) < 195840" by simp
  have h5: "195840 \<le> chunk_size identity_model" by (simp add: identity_model_sizes)
  have h6: "195840 + 2 \<le> chunk_size identity_model" by (simp add: identity_model_sizes)
  then have h6': "(1::real) / 4 \<noteq> 0 \<longrightarrow> 195840 + 2 \<le> chunk_size identity_model"
    by (rule impI)
  have g3: "demix_step 0 (chunk_size identity_model) = Inr (int 261120)"
    by (simp add: identity_model_sizes demix_step_zero)
  have g4: "(0::nat) < 261120" by simp
  have g5: "261120 \<le> chunk_size identity_model" by (simp add: identity_model_sizes)
  have g6: "(0::real) \<noteq> 0 \<longrightarrow> 261120 + 2 \<le> chunk_size identity_model" by simp
  have idt: "\<forall>c. length c = chunk_size identity_model \<longrightarrow>
      infer_chunk identity_model identity_session c = c"
    by (simp add: identity_model_chunk)
  have idt': "infer_chunk identity_model identity_session = (\<lambda>c. c)"
    by (rule ext) (rule identity_model_chunk)
  have a: "demix [(1, 2), (3, 4)] identity_model identity_session (1 / 4)
     = Inr [(Some 1, Some 2), (Some 3, Some 4)]"
    using overlap_add_identity [OF h1 h2 h3 h4 h5 h6' idt, of "[(1, 2), (3, 4)]"]
    by (simp add: finite_frames_def)
  have b: "demix (replicate 261120 (1, 2)) identity_model identity_session 0
     = Inr (replicate 261120 (Some 1, Some 2))"
    using overlap_add_identity [OF h1 h2 g3 g4 g5 g6 idt, of "replicate 261120 (1, 2)"]
    by (simp add: finite_frames_def)
  from h1 h2 idt' h3 h4 h5 h6 a g3 g5 b show ?thesis by (intro conjI)
qed

section \<open>A chunk transform that returns too few columns\<close>

text \<open>
  When \<^verbatim>\<open>istft\<close> returns fewer columns than the slice of the accumulator has, the
  in-place addition \<^verbatim>\<open>result[..., start:end] += tar_waves[..., :end - start]\<close> cannot
  broadcast its operand and \<^verbatim>\<open>demix\<close> ends with \<^verbatim>\<open>ValueError\<close>.
\<close>

lemma inplace_raises:
  "length operand \<noteq> length target \<Longrightarrow> length operand \<noteq> 1 \<Longrightarrow>
   inplace f target operand = Inl ValueError"
  by (simp add: inplace_def)

lemma short_chunk_raises:
  "demix [] unit_spectrum_model increment_session 0 = Inl ValueError"
proof -
  let ?m = "unit_spectrum_model"
  let ?mixture = "replicate 255 (0::real, 0::real)"
  have cs: "chunk_size ?m = 255" "n_fft ?m = 2"
    by (simp_all add: chunk_size_def dim_t_def unit_spectrum_model_def)
  have "replicate 1 (0::real, 0::real) @ replicate 254 (0, 0) = replicate (1 + 254) (0, 0)"
    by (simp only: replicate_add)
  then have mx: "demix_mixture ?m [] = Inr ?mixture"
    by (simp add: demix_mixture_def cs Let_def)
  have tw: "infer_chunk ?m increment_session c = []" for c
    by (simp add: infer_chunk_def unit_spectrum_model_def)
  have d: "add_slice 0 255 (replicate 255 (1, 1)) ?mixture
           = Inr (slice_sum 0 255 (replicate 255 (1, 1)) ?mixture)"
    by (rule add_slice_slice_sum) simp_all
  have "slice_between ?mixture (int 0) (int 255) = take (255 - 0) (drop 0 ?mixture)"
    by (rule slice_between_nat) simp_all
  then have sl: "slice_between ?mixture (int 0) (int 255) = ?mixture" by simp
  have "inplace frame_add ?mixture [] = Inl ValueError"
    by (rule inplace_raises) simp_all
  then have r: "add_slice 0 255 [] ?mixture = Inl ValueError"
    unfolding add_slice_def sl by simp
  have ch: "demix_chunk ?m increment_session 0 ?mixture 0 (?mixture, ?mixture) = Inl ValueError"
    by (simp add: demix_chunk_def Let_def cs tw slice_to_def norm_idx_def d r)
  have st: "demix_step 0 (chunk_size ?m) = Inr (int 255)"
    unfolding cs by (rule demix_step_plain) simp_all
  have rg: "py_range_step 255 255 = Inr [0]"
    by (simp add: py_range_step_def)
  have "demix_accumulate ?m increment_session 0 ?mixture = Inl ValueError"
    by (simp add: demix_accumulate_def st rg ch Let_def)
  then show ?thesis by (simp add: demix_def mx Let_def)
qed

end
